theory Spec2Isabelle
  imports Main "HOL-Library.Sublist" "HOL-Library.Multiset"
begin

section \<open>JavaScript strings\<close>

text \<open>
  The TypeScript sources work on JavaScript strings. They are modelled as \<^typ>\<open>string\<close>,
  the UTF-8 bytes of the text, which is what \<open>new Blob([data]).size\<close> counts. The methods
  \<open>includes\<close> and \<open>split\<close> compare code units and are written out on the bytes: in
  well-formed text a sequence of bytes occurs where the characters it encodes occur.
  \<open>trim\<close> and \<open>toLowerCase\<close> go by the Unicode tables of the host (white space is more
  than the ASCII blanks, letters are more than \<open>A\<close>..\<open>Z\<close>, and a letter may change its
  length); they are functions of the host, declared with the other ones below.
\<close>

text \<open>\<open>s.includes(q)\<close>: some position of \<open>s\<close> starts an occurrence of \<open>q\<close>.\<close>

fun str_includes :: "string \<Rightarrow> string \<Rightarrow> bool" where
  "str_includes [] q = (q = [])"
| "str_includes (c # cs) q = (prefix q (c # cs) \<or> str_includes cs q)"

section \<open>types/memo.ts\<close>

text \<open>
  A JavaScript \<open>Date\<close> is its time value, an integral number of milliseconds since the
  epoch, or \<open>NaN\<close> for an Invalid Date: \<^term>\<open>None\<close> here.
\<close>

type_synonym date = "int option"

record memo =
  memo_id :: string
  content :: string
  createdAt :: date
  updatedAt :: date

datatype error_type = QUOTA_EXCEEDED | PARSE_ERROR | NOT_FOUND | UNKNOWN

text \<open>The messages are the entries of \<open>ERROR_MESSAGES\<close> in constants.ts, named by their keys.\<close>

datatype message =
  STORAGE_QUOTA_EXCEEDED | STORAGE_PARSE_ERROR | MEMO_NOT_FOUND | SAVE_FAILED | DELETE_FAILED
  | UNKNOWN_ERROR

section \<open>The host: JSON, Date, localStorage\<close>

text \<open>
  A value as \<open>JSON.parse\<close> returns it. An object is the list of its properties in their
  order, each name once. The code asks a parsed number for nothing but its type, and the
  numbers are kept as integers.
\<close>

datatype json =
  JNull | JBool bool | JNum int | JStr string | JArr "json list" | JObj "(string \<times> json) list"

text \<open>
  What the code throws and catches besides its own \<open>StorageError\<close> objects: the
  \<open>SyntaxError\<close> of \<open>JSON.parse\<close>, the three \<open>new Error(...)\<close> of storage.ts, the
  \<open>ReferenceError\<close> of naming \<open>localStorage\<close> where there is none, and the
  \<open>DOMException\<close> named \<open>QuotaExceededError\<close> of \<open>localStorage.setItem\<close>.
\<close>

datatype js_error =
  SyntaxError | InvalidDataFormat | InvalidMemoData json | LocalStorageUnavailable
  | ReferenceError | QuotaExceededError

datatype thrown = StorageError error_type message "js_error option" | Native js_error

text \<open>
  The functions of the host that the code calls and that are not written out here:
  \<open>trim\<close> and \<open>toLowerCase\<close> of a string, \<open>new Date(s).getTime()\<close> for a string \<open>s\<close>,
  \<open>toISOString\<close> and \<open>toLocaleDateString\<close> of a \<open>Date\<close>, the order in which the engine's
  \<open>sort\<close> leaves an array of memos when ECMAScript does not fix it (see below), and
  whether \<open>localStorage.setItem\<close> refuses a text for lack of space.
\<close>

record host =
  trim :: "string \<Rightarrow> string"
  toLowerCase :: "string \<Rightarrow> string"
  Date_parse :: "string \<Rightarrow> date"
  toISOString :: "int \<Rightarrow> string"
  toLocaleDateString :: "date \<Rightarrow> string"
  engine_sort :: "(memo \<Rightarrow> memo \<Rightarrow> int option) \<Rightarrow> memo list \<Rightarrow> memo list"
  setItem_fails :: "string \<Rightarrow> bool"

text \<open>
  The string kept under \<open>STORAGE_KEY\<close> is represented by what the code's two tests make
  of it: the empty string (falsy, so \<open>!data\<close> holds), a text on which \<open>JSON.parse\<close> throws
  \<open>SyntaxError\<close>, or a text that parses, kept as the value \<open>JSON.parse\<close> returns for it.
  A write stores the value denoted by the text \<open>JSON.stringify\<close> produced.
  \<^term>\<open>None\<close> is \<open>null\<close>, the key being absent. On the server \<open>window\<close> is undefined
  and there is no \<open>localStorage\<close>.
\<close>

datatype stored = Blank | Garbled | Document json

datatype env = Server | Browser "stored option"

subsection \<open>JSON.stringify\<close>

definition hexDigit :: "nat \<Rightarrow> char" where
  "hexDigit n = ''0123456789abcdef'' ! n"

definition escapeChar :: "char \<Rightarrow> string" where
  "escapeChar c =
     (if c = CHR 0x08 then [CHR 0x5C, CHR ''b'']
      else if c = CHR 0x09 then [CHR 0x5C, CHR ''t'']
      else if c = CHR 0x0A then [CHR 0x5C, CHR ''n'']
      else if c = CHR 0x0C then [CHR 0x5C, CHR ''f'']
      else if c = CHR 0x0D then [CHR 0x5C, CHR ''r'']
      else if c = CHR 0x22 then [CHR 0x5C, CHR 0x22]
      else if c = CHR 0x5C then [CHR 0x5C, CHR 0x5C]
      else if (of_char c :: nat) < 32
        then [CHR 0x5C, CHR ''u'', CHR ''0'', CHR ''0'',
              hexDigit (of_char c div 16), hexDigit (of_char c mod 16)]
      else [c])"

definition quoteJSONString :: "string \<Rightarrow> string" where
  "quoteJSONString s = [CHR 0x22] @ concat (map escapeChar s) @ [CHR 0x22]"

fun join :: "string \<Rightarrow> string list \<Rightarrow> string" where
  "join sep [] = []"
| "join sep [x] = x"
| "join sep (x # y # ys) = x @ sep @ join sep (y # ys)"

fun digits :: "nat \<Rightarrow> string" where
  "digits n = (if n < 10 then [hexDigit n] else digits (n div 10) @ [hexDigit (n mod 10)])"

definition numberToString :: "int \<Rightarrow> string" where
  "numberToString i = (if i < 0 then CHR ''-'' # digits (nat (- i)) else digits (nat i))"

text \<open>
  \<open>JSON.stringify(value, replacer, space)\<close> with \<open>gap\<close> the indentation unit that \<open>space\<close>
  gives (empty when there is none) and \<open>indent\<close> the current indentation.
\<close>

fun JSON_stringify :: "string \<Rightarrow> string \<Rightarrow> json \<Rightarrow> string" where
  "JSON_stringify gap indent JNull = ''null''"
| "JSON_stringify gap indent (JBool b) = (if b then ''true'' else ''false'')"
| "JSON_stringify gap indent (JNum n) = numberToString n"
| "JSON_stringify gap indent (JStr s) = quoteJSONString s"
| "JSON_stringify gap indent (JArr xs) =
     (let stepback = indent; indent = indent @ gap;
          partial = map (JSON_stringify gap indent) xs
      in if partial = [] then ''[]''
         else if gap = [] then ''['' @ join '','' partial @ '']''
         else ''['' @ [CHR 0x0A] @ indent @ join ('','' @ [CHR 0x0A] @ indent) partial
              @ [CHR 0x0A] @ stepback @ '']'')"
| "JSON_stringify gap indent (JObj kvs) =
     (let stepback = indent; indent = indent @ gap;
          partial = map (\<lambda>(k, v). quoteJSONString k @ (if gap = [] then '':'' else '': '')
                                   @ JSON_stringify gap indent v) kvs
      in if partial = [] then ''{}''
         else if gap = [] then ''{'' @ join '','' partial @ ''}''
         else ''{'' @ [CHR 0x0A] @ indent @ join ('','' @ [CHR 0x0A] @ indent) partial
              @ [CHR 0x0A] @ stepback @ ''}'')"

text \<open>
  The value \<open>JSON.stringify\<close> serialises for a \<open>Memo\<close>. A \<open>Date\<close> is replaced by the result
  of its \<open>toJSON\<close> before the replacer of \<open>saveMemos\<close> sees it: the ISO string, or \<open>null\<close>
  for an Invalid Date; the replacer then finds no \<open>Date\<close> and returns each value as it is.
\<close>

definition date_toJSON :: "host \<Rightarrow> date \<Rightarrow> json" where
  "date_toJSON h d = (case d of None \<Rightarrow> JNull | Some t \<Rightarrow> JStr (toISOString h t))"

definition memo_toJSON :: "host \<Rightarrow> memo \<Rightarrow> json" where
  "memo_toJSON h m =
     JObj [(''id'', JStr (memo_id m)), (''content'', JStr (content m)),
           (''createdAt'', date_toJSON h (createdAt m)),
           (''updatedAt'', date_toJSON h (updatedAt m))]"

definition memos_toJSON :: "host \<Rightarrow> memo list \<Rightarrow> json" where
  "memos_toJSON h memos = JArr (map (memo_toJSON h) memos)"

subsection \<open>Reading a parsed value\<close>

text \<open>
  \<open>typeof\<close>, the operator \<open>in\<close> and property access on a parsed value, for the four
  property names the code asks for (none of which an array has). A missing property
  reads as \<open>undefined\<close>, \<^term>\<open>None\<close>.
\<close>

datatype js_type = T_undefined | T_object | T_boolean | T_number | T_string

fun typeof :: "json option \<Rightarrow> js_type" where
  "typeof None = T_undefined"
| "typeof (Some JNull) = T_object"
| "typeof (Some (JBool b)) = T_boolean"
| "typeof (Some (JNum n)) = T_number"
| "typeof (Some (JStr s)) = T_string"
| "typeof (Some (JArr xs)) = T_object"
| "typeof (Some (JObj kvs)) = T_object"

fun get_prop :: "json \<Rightarrow> string \<Rightarrow> json option" where
  "get_prop (JObj kvs) k = map_of kvs k"
| "get_prop v k = None"

definition has_prop :: "string \<Rightarrow> json \<Rightarrow> bool" where
  "has_prop k v = (get_prop v k \<noteq> None)"

fun as_string :: "json option \<Rightarrow> string" where
  "as_string (Some (JStr s)) = s"
| "as_string v = []"

subsection \<open>Array.prototype.sort\<close>

text \<open>
  \<open>sort(comparefn)\<close> reads the number \<open>comparefn\<close> returns through \<open>SortCompare\<close>, which
  takes \<open>NaN\<close> (\<^term>\<open>None\<close>) for \<open>+0\<close>. ECMAScript fixes the result when \<open>comparefn\<close> is
  a consistent comparator for the elements of the array: no call on two of them returns
  \<open>NaN\<close>, comparing equal is reflexive, symmetric and transitive, and comparing less and
  comparing greater are transitive. The elements are then sorted, and the sort is stable;
  this is written as an insertion sort, in which each element goes in front of the first
  element it does not compare greater than. For a comparator that is not consistent the
  order is implementation-defined: it is the one the host's engine gives.
\<close>

definition sortCompare :: "('a \<Rightarrow> 'a \<Rightarrow> int option) \<Rightarrow> 'a \<Rightarrow> 'a \<Rightarrow> int" where
  "sortCompare comparefn x y = (case comparefn x y of None \<Rightarrow> 0 | Some v \<Rightarrow> v)"

definition consistent :: "('a \<Rightarrow> 'a \<Rightarrow> int option) \<Rightarrow> 'a list \<Rightarrow> bool" where
  "consistent comparefn xs \<longleftrightarrow>
     list_all (\<lambda>a. list_all (\<lambda>b. list_all (\<lambda>c.
       comparefn a b \<noteq> None \<and>
       sortCompare comparefn a a = 0 \<and>
       (if sortCompare comparefn a b = 0 then sortCompare comparefn b a = 0 else True) \<and>
       (if sortCompare comparefn a b = 0 \<and> sortCompare comparefn b c = 0
        then sortCompare comparefn a c = 0 else True) \<and>
       (if sortCompare comparefn a b < 0 \<and> sortCompare comparefn b c < 0
        then sortCompare comparefn a c < 0 else True) \<and>
       (if sortCompare comparefn a b > 0 \<and> sortCompare comparefn b c > 0
        then sortCompare comparefn a c > 0 else True)) xs) xs) xs"

fun sort_insert :: "('a \<Rightarrow> 'a \<Rightarrow> int option) \<Rightarrow> 'a \<Rightarrow> 'a list \<Rightarrow> 'a list" where
  "sort_insert comparefn x [] = [x]"
| "sort_insert comparefn x (y # ys) =
     (if sortCompare comparefn x y \<le> 0 then x # y # ys else y # sort_insert comparefn x ys)"

definition insertion_sort :: "('a \<Rightarrow> 'a \<Rightarrow> int option) \<Rightarrow> 'a list \<Rightarrow> 'a list" where
  "insertion_sort comparefn xs = foldr (sort_insert comparefn) xs []"

definition Array_sort ::
  "host \<Rightarrow> (memo \<Rightarrow> memo \<Rightarrow> int option) \<Rightarrow> memo list \<Rightarrow> memo list" where
  "Array_sort h comparefn xs =
     (if consistent comparefn xs then insertion_sort comparefn xs
      else engine_sort h comparefn xs)"

fun findIndex :: "('a \<Rightarrow> bool) \<Rightarrow> 'a list \<Rightarrow> nat option" where
  "findIndex P [] = None"
| "findIndex P (x # xs) =
     (if P x then Some 0 else (case findIndex P xs of None \<Rightarrow> None | Some i \<Rightarrow> Some (Suc i)))"

section \<open>textUtils.ts\<close>

text \<open>
  \<open>searchInText(text, query, caseSensitive = false)\<close>. A string is falsy exactly when it
  is empty, so \<open>!query\<close> is \<open>query = []\<close> and \<open>!text\<close> is \<open>text = []\<close>.
\<close>

definition searchInText :: "host \<Rightarrow> string \<Rightarrow> string \<Rightarrow> bool \<Rightarrow> bool" where
  "searchInText h text query caseSensitive =
     (if query = [] \<or> trim h query = [] then True
      else if text = [] then False
      else
        let searchText = (if caseSensitive then text else toLowerCase h text);
            searchQuery = (if caseSensitive then query else toLowerCase h query)
        in str_includes searchText searchQuery)"

section \<open>idUtils.ts\<close>

text \<open>
  \<open>isValidId\<close> tests the id against
  \<open>/^[0-9a-f]{8}-[0-9a-f]{4}-4[0-9a-f]{3}-[89ab][0-9a-f]{3}-[0-9a-f]{12}$/i\<close>.
  The expression is a sequence of 36 single-character classes between the anchors, so a
  string matches when it has exactly one character per class, each in its class. The flag
  \<open>i\<close> admits the upper-case letters.
\<close>

datatype charClass = Hex | Dash | Four | Variant

fun inClass :: "charClass \<Rightarrow> char \<Rightarrow> bool" where
  "inClass Hex c = (c \<in> set ''0123456789abcdefABCDEF'')"
| "inClass Dash c = (c = CHR ''-'')"
| "inClass Four c = (c = CHR ''4'')"
| "inClass Variant c = (c \<in> set ''89abAB'')"

definition uuidRegex :: "charClass list" where
  "uuidRegex = replicate 8 Hex @ [Dash] @ replicate 4 Hex @ [Dash] @ [Four] @ replicate 3 Hex
     @ [Dash] @ [Variant] @ replicate 3 Hex @ [Dash] @ replicate 12 Hex"

definition isValidId :: "string \<Rightarrow> bool" where
  "isValidId id' = list_all2 inClass uuidRegex id'"

section \<open>constants.ts\<close>

definition DEBOUNCE_DELAY :: nat where
  "DEBOUNCE_DELAY = 3000"

definition STORAGE_QUOTA_LIMIT :: nat where
  "STORAGE_QUOTA_LIMIT = 5 * 1024 * 1024"

section \<open>storage.ts: class MemoStorage\<close>

text \<open>
  Each method takes the environment it runs in. A method that writes returns its outcome
  together with the environment it leaves; \<^term>\<open>Inl\<close> carries what the method throws.
\<close>

definition isValidMemoData :: "json \<Rightarrow> bool" where
  "isValidMemoData data \<longleftrightarrow>
     data \<noteq> JNull \<and>
     typeof (Some data) = T_object \<and>
     has_prop ''id'' data \<and>
     has_prop ''content'' data \<and>
     has_prop ''createdAt'' data \<and>
     has_prop ''updatedAt'' data \<and>
     typeof (get_prop data ''id'') = T_string \<and>
     typeof (get_prop data ''content'') = T_string \<and>
     typeof (get_prop data ''createdAt'') = T_string \<and>
     typeof (get_prop data ''updatedAt'') = T_string \<and>
     isValidId (as_string (get_prop data ''id''))"

text \<open>The callback of \<open>parsed.map\<close> in \<open>getMemos\<close>, for an item that passed the check.\<close>

definition toMemo :: "host \<Rightarrow> json \<Rightarrow> memo" where
  "toMemo h validItem =
     \<lparr> memo_id = as_string (get_prop validItem ''id''),
       content = as_string (get_prop validItem ''content''),
       createdAt = Date_parse h (as_string (get_prop validItem ''createdAt'')),
       updatedAt = Date_parse h (as_string (get_prop validItem ''updatedAt'')) \<rparr>"

text \<open>\<open>parsed.map(...)\<close>: the first item that fails the check throws, and the map ends.\<close>

fun map_items :: "host \<Rightarrow> json list \<Rightarrow> js_error + memo list" where
  "map_items h [] = Inr []"
| "map_items h (item # items) =
     (if \<not> isValidMemoData item then Inl (InvalidMemoData item)
      else (case map_items h items of
              Inl e \<Rightarrow> Inl e
            | Inr memos \<Rightarrow> Inr (toMemo h item # memos)))"

text \<open>\<open>(a, b) => b.updatedAt.getTime() - a.updatedAt.getTime()\<close>\<close>

definition compareFn :: "memo \<Rightarrow> memo \<Rightarrow> int option" where
  "compareFn a b =
     (case (updatedAt b, updatedAt a) of
        (Some tb, Some ta) \<Rightarrow> Some (tb - ta)
      | _ \<Rightarrow> None)"

text \<open>The \<open>try\<close> block of \<open>getMemos\<close>, then the method with its \<open>catch\<close>.\<close>

definition getMemos_try :: "host \<Rightarrow> env \<Rightarrow> js_error + memo list" where
  "getMemos_try h env =
     (case env of
        Server \<Rightarrow> Inr []
      | Browser None \<Rightarrow> Inr []
      | Browser (Some Blank) \<Rightarrow> Inr []
      | Browser (Some Garbled) \<Rightarrow> Inl SyntaxError
      | Browser (Some (Document parsed)) \<Rightarrow>
          (case parsed of
             JArr items \<Rightarrow>
               (case map_items h items of
                  Inl e \<Rightarrow> Inl e
                | Inr memos \<Rightarrow> Inr (Array_sort h compareFn memos))
           | _ \<Rightarrow> Inl InvalidDataFormat))"

definition getMemos :: "host \<Rightarrow> env \<Rightarrow> thrown + memo list" where
  "getMemos h env =
     (case getMemos_try h env of
        Inl e \<Rightarrow>
          (if e = SyntaxError
           then Inl (StorageError PARSE_ERROR STORAGE_PARSE_ERROR (Some e))
           else Inl (StorageError UNKNOWN UNKNOWN_ERROR (Some e)))
      | Inr memos \<Rightarrow> Inr memos)"

text \<open>
  \<open>saveMemos\<close>: the size test comes before the write. In its \<open>catch\<close> the host's
  \<open>QuotaExceededError\<close> becomes a \<open>StorageError\<close>; anything else is thrown on.
\<close>

definition saveMemos_try :: "host \<Rightarrow> memo list \<Rightarrow> env \<Rightarrow> (thrown + unit) \<times> env" where
  "saveMemos_try h memos env =
     (let data = JSON_stringify [] [] (memos_toJSON h memos);
          dataSize = length data
      in if dataSize > STORAGE_QUOTA_LIMIT
         then (Inl (StorageError QUOTA_EXCEEDED STORAGE_QUOTA_EXCEEDED None), env)
         else (case env of
                 Server \<Rightarrow> (Inl (Native ReferenceError), env)
               | Browser old \<Rightarrow>
                   if setItem_fails h data then (Inl (Native QuotaExceededError), env)
                   else (Inr (), Browser (Some (Document (memos_toJSON h memos))))))"

definition saveMemos :: "host \<Rightarrow> memo list \<Rightarrow> env \<Rightarrow> (thrown + unit) \<times> env" where
  "saveMemos h memos env =
     (case saveMemos_try h memos env of
        (Inl e, env') \<Rightarrow>
          (if e = Native QuotaExceededError
           then (Inl (StorageError QUOTA_EXCEEDED STORAGE_QUOTA_EXCEEDED
                        (Some QuotaExceededError)), env')
           else (Inl e, env'))
      | (Inr u, env') \<Rightarrow> (Inr u, env'))"

text \<open>
  The \<open>catch\<close> shared by \<open>saveMemo\<close>, \<open>deleteMemo\<close> and \<open>updateMemo\<close>: an object with the
  properties \<open>type\<close> and \<open>message\<close> (a \<open>StorageError\<close>) is thrown on, anything else is
  wrapped as \<open>UNKNOWN\<close> with the method's message.
\<close>

definition rethrow :: "message \<Rightarrow> thrown \<Rightarrow> thrown" where
  "rethrow msg e =
     (case e of
        StorageError t m c \<Rightarrow> e
      | Native x \<Rightarrow> StorageError UNKNOWN msg (Some x))"

definition catch :: "message \<Rightarrow> (thrown + 'a) \<times> env \<Rightarrow> (thrown + 'a) \<times> env" where
  "catch msg r =
     (case r of
        (Inl e, env') \<Rightarrow> (Inl (rethrow msg e), env')
      | (Inr v, env') \<Rightarrow> (Inr v, env'))"

definition saveMemo_try :: "host \<Rightarrow> memo \<Rightarrow> env \<Rightarrow> (thrown + unit) \<times> env" where
  "saveMemo_try h memo env =
     (case env of
        Server \<Rightarrow> (Inl (Native LocalStorageUnavailable), env)
      | Browser old \<Rightarrow>
          (case getMemos h env of
             Inl e \<Rightarrow> (Inl e, env)
           | Inr memos \<Rightarrow>
               (let memos' =
                  (case findIndex (\<lambda>m. memo_id m = memo_id memo) memos of
                     Some existingIndex \<Rightarrow> memos[existingIndex := memo]
                   | None \<Rightarrow> memos @ [memo])
                in saveMemos h memos' env)))"

definition saveMemo :: "host \<Rightarrow> memo \<Rightarrow> env \<Rightarrow> (thrown + unit) \<times> env" where
  "saveMemo h memo env = catch SAVE_FAILED (saveMemo_try h memo env)"

definition getMemoById :: "host \<Rightarrow> env \<Rightarrow> string \<Rightarrow> memo option" where
  "getMemoById h env id' =
     (if \<not> isValidId id' then None
      else (case getMemos h env of
              Inl e \<Rightarrow> None
            | Inr memos \<Rightarrow> find (\<lambda>memo. memo_id memo = id') memos))"

definition deleteMemo_try :: "host \<Rightarrow> string \<Rightarrow> env \<Rightarrow> (thrown + unit) \<times> env" where
  "deleteMemo_try h id' env =
     (if \<not> isValidId id' then (Inl (StorageError NOT_FOUND MEMO_NOT_FOUND None), env)
      else (case getMemos h env of
              Inl e \<Rightarrow> (Inl e, env)
            | Inr memos \<Rightarrow>
                (let filteredMemos = filter (\<lambda>memo. memo_id memo \<noteq> id') memos
                 in if length filteredMemos = length memos
                    then (Inl (StorageError NOT_FOUND MEMO_NOT_FOUND None), env)
                    else saveMemos h filteredMemos env)))"

definition deleteMemo :: "host \<Rightarrow> string \<Rightarrow> env \<Rightarrow> (thrown + unit) \<times> env" where
  "deleteMemo h id' env = catch DELETE_FAILED (deleteMemo_try h id' env)"

text \<open>
  \<open>updateMemo(id, updates)\<close> at the time \<open>now\<close> that \<open>getCurrentDate()\<close> returns. The
  patch \<open>updates\<close> has the one optional property \<open>content\<close>.
\<close>

definition updateMemo_try ::
  "host \<Rightarrow> int \<Rightarrow> string \<Rightarrow> string option \<Rightarrow> env \<Rightarrow> (thrown + unit) \<times> env" where
  "updateMemo_try h now id' updates env =
     (case getMemoById h env id' of
        None \<Rightarrow> (Inl (StorageError NOT_FOUND MEMO_NOT_FOUND None), env)
      | Some existingMemo \<Rightarrow>
          (let updatedMemo =
             existingMemo\<lparr> content := (case updates of None \<Rightarrow> content existingMemo | Some c \<Rightarrow> c),
                            updatedAt := Some now \<rparr>
           in saveMemo h updatedMemo env))"

definition updateMemo ::
  "host \<Rightarrow> int \<Rightarrow> string \<Rightarrow> string option \<Rightarrow> env \<Rightarrow> (thrown + unit) \<times> env" where
  "updateMemo h now id' updates env = catch SAVE_FAILED (updateMemo_try h now id' updates env)"

text \<open>\<open>createMemo(content)\<close>, with the id \<open>generateId()\<close> returns and the time \<open>now\<close>.\<close>

definition createMemo ::
  "host \<Rightarrow> int \<Rightarrow> string \<Rightarrow> string \<Rightarrow> env \<Rightarrow> (thrown + memo) \<times> env" where
  "createMemo h now newId content' env =
     (let memo = \<lparr> memo_id = newId, content = content', createdAt = Some now,
                   updatedAt = Some now \<rparr>
      in case saveMemo h memo env of
           (Inl e, env') \<Rightarrow> (Inl e, env')
         | (Inr u, env') \<Rightarrow> (Inr memo, env'))"

section \<open>hooks/useMemos.ts\<close>

text \<open>The memo \<open>filteredMemos\<close>, computed from the cache and the search query.\<close>

definition filteredMemos :: "host \<Rightarrow> memo list \<Rightarrow> string \<Rightarrow> memo list" where
  "filteredMemos h memos searchQuery =
     (if trim h searchQuery = [] then memos
      else filter (\<lambda>memo. searchInText h (content memo) searchQuery False) memos)"

text \<open>\<open>s.split(sep)\<close> for a one-character separator: never the empty list.\<close>

fun split :: "char \<Rightarrow> string \<Rightarrow> string list" where
  "split sep [] = [[]]"
| "split sep (c # cs) =
     (if c = sep then [] # split sep cs
      else (case split sep cs of
              [] \<Rightarrow> [[c]]
            | l # ls \<Rightarrow> (c # l) # ls))"

text \<open>The placeholder title of \<open>exportMemos\<close> and the label of its date line, in UTF-8.\<close>

definition untitled :: string where
  "untitled = [CHR 0xE7, CHR 0x84, CHR 0xA1, CHR 0xE9, CHR 0xA1, CHR 0x8C, CHR 0xE3, CHR 0x81,
               CHR 0xAE, CHR 0xE3, CHR 0x83, CHR 0xA1, CHR 0xE3, CHR 0x83, CHR 0xA2]"

definition updated_label :: string where
  "updated_label = [CHR 0xE6, CHR 0x9B, CHR 0xB4, CHR 0xE6, CHR 0x96, CHR 0xB0, CHR 0xE6,
                    CHR 0x97, CHR 0xA5]"

datatype format = Json | Markdown

text \<open>The callback of \<open>memos.map\<close> in \<open>exportMemos\<close>: one section per memo.\<close>

definition markdownSection :: "host \<Rightarrow> memo \<Rightarrow> string" where
  "markdownSection h memo =
     (let first = (case split (CHR 0x0A) (content memo) of [] \<Rightarrow> [] | l # ls \<Rightarrow> l);
          title = (if first = [] then untitled else first);
          content' = content memo;
          date = toLocaleDateString h (updatedAt memo)
      in ''# '' @ title @ [CHR 0x0A, CHR 0x0A] @ content' @ [CHR 0x0A, CHR 0x0A]
         @ ''*'' @ updated_label @ '': '' @ date @ ''*'' @ [CHR 0x0A, CHR 0x0A]
         @ ''---'' @ [CHR 0x0A])"

definition exportMemos :: "host \<Rightarrow> format \<Rightarrow> memo list \<Rightarrow> string" where
  "exportMemos h format' memos =
     (if format' = Json then JSON_stringify ''  '' [] (memos_toJSON h memos)
      else join [CHR 0x0A] (map (markdownSection h) memos))"

section \<open>hooks/useAutoSave.ts\<close>

text \<open>
  The hook is modelled as a transition system over what it keeps between renders: its two
  pieces of React state (\<open>saveStatus\<close>, \<open>lastSaved\<close>), its refs (\<open>retryCount\<close>,
  \<open>lastData\<close>, \<open>isSaving\<close>), the timers it has set, and the calls of \<open>onSave\<close> whose
  promise has not settled yet (one at most, unless \<open>reset\<close> lowers \<open>isSaving\<close> in
  between).

  Every render of the page makes a new \<open>onSave\<close>, which commits the content of the memo
  of that render, the string passed as \<open>data\<close>; \<open>performSave\<close> depends on \<open>onSave\<close>, so
  every render makes a new \<open>performSave\<close> too. A timer is therefore recorded with its
  delay and with the payload that the \<open>performSave\<close> it will call commits. The debounce
  timer calls the \<open>performSave\<close> of the render whose effect set it. A retry timer is set
  inside a \<open>performSave\<close> and calls that same \<open>performSave\<close> again.

  \<open>commits\<close> is the history of the calls of \<open>onSave\<close>: the payload of each, paired with
  the latest \<open>data\<close> the hook had been rendered with at that moment.

  \<open>cleanup\<close> tells whether the last run of the debounce effect returned its cleanup
  function (it does not when it leaves through the early \<open>return\<close>). A render that
  changes nothing in \<open>data\<close> still runs the effect again, since \<open>performSave\<close> and
  \<open>saveStatus\<close> are among its dependencies: the cleanup of the previous run comes first
  and clears the pending debounce timer. A change of \<open>saveStatus\<close> or \<open>lastSaved\<close>
  causes such a render (\<open>commit_state\<close>); setting the state to the value it has does not.

  The events are what happens to the hook from outside: a render of the page with some
  \<open>data\<close>, a timer firing, the promise of a call of \<open>onSave\<close> settling at some time, a
  call of \<open>save\<close> or \<open>reset\<close>, and the page being hidden or left. Timers fire in any
  order; their delays are recorded as the code computes them.
\<close>

datatype SaveStatus = idle | typing | saving | saved | error

record config =
  enabled :: bool
  delay :: nat
  maxRetries :: nat

record scheduler =
  saveStatus :: SaveStatus
  lastSaved :: "int option"
  debounceTimer :: "(nat \<times> string) option"
  cleanup :: bool
  retryCount :: nat
  lastData :: string
  isSaving :: bool
  retryTimers :: "(nat \<times> string) list"
  inFlight :: "string list"
  commits :: "(string \<times> string) list"

definition mount :: "string \<Rightarrow> scheduler" where
  "mount data =
     \<lparr> saveStatus = idle, lastSaved = None, debounceTimer = None, cleanup = False,
       retryCount = 0, lastData = data, isSaving = False, retryTimers = [], inFlight = [],
       commits = [] \<rparr>"

definition run_cleanup :: "scheduler \<Rightarrow> scheduler" where
  "run_cleanup s = (if cleanup s then s\<lparr> debounceTimer := None \<rparr> else s)"

definition effect :: "config \<Rightarrow> string \<Rightarrow> scheduler \<Rightarrow> scheduler" where
  "effect cfg data s =
     (if \<not> enabled cfg \<or> data = lastData s
      then s\<lparr> lastData := data, cleanup := False \<rparr>
      else s\<lparr> lastData := data,
              saveStatus := (if saveStatus s \<noteq> saving then typing else saveStatus s),
              debounceTimer := Some (delay cfg, data),
              cleanup := True \<rparr>)"

definition rerender :: "config \<Rightarrow> scheduler \<Rightarrow> scheduler" where
  "rerender cfg s = effect cfg (lastData s) (run_cleanup s)"

definition commit_state :: "config \<Rightarrow> scheduler \<Rightarrow> scheduler \<Rightarrow> scheduler" where
  "commit_state cfg old new =
     (if saveStatus new \<noteq> saveStatus old \<or> lastSaved new \<noteq> lastSaved old
      then rerender cfg new else new)"

definition render :: "config \<Rightarrow> string \<Rightarrow> scheduler \<Rightarrow> scheduler" where
  "render cfg data s = commit_state cfg s (effect cfg data (run_cleanup s))"

definition performSave :: "config \<Rightarrow> string \<Rightarrow> scheduler \<Rightarrow> scheduler" where
  "performSave cfg payload s =
     (if isSaving s \<or> \<not> enabled cfg then s
      else commit_state cfg s
             (s\<lparr> isSaving := True, saveStatus := saving, inFlight := inFlight s @ [payload],
                  commits := commits s @ [(payload, lastData s)] \<rparr>))"

definition settle :: "config \<Rightarrow> nat \<Rightarrow> bool \<Rightarrow> int \<Rightarrow> scheduler \<Rightarrow> scheduler" where
  "settle cfg k ok now s =
     (if k < length (inFlight s)
      then (let payload = inFlight s ! k;
                pending = take k (inFlight s) @ drop (Suc k) (inFlight s)
            in if ok
               then commit_state cfg s
                      (s\<lparr> lastSaved := Some now, saveStatus := saved, retryCount := 0,
                           isSaving := False, inFlight := pending \<rparr>)
               else if retryCount s < maxRetries cfg
               then (let rc = retryCount s + 1;
                         retryDelay = min (1000 * 2 ^ (rc - 1)) 10000
                     in commit_state cfg s
                          (s\<lparr> retryCount := rc,
                               retryTimers := retryTimers s @ [(retryDelay, payload)],
                               saveStatus := saving, isSaving := False,
                               inFlight := pending \<rparr>))
               else commit_state cfg s
                      (s\<lparr> saveStatus := error, retryCount := 0, isSaving := False,
                           inFlight := pending \<rparr>))
      else s)"

definition save :: "config \<Rightarrow> scheduler \<Rightarrow> scheduler" where
  "save cfg s = performSave cfg (lastData s) (s\<lparr> debounceTimer := None \<rparr>)"

definition reset :: "config \<Rightarrow> scheduler \<Rightarrow> scheduler" where
  "reset cfg s =
     commit_state cfg s
       (s\<lparr> debounceTimer := None, saveStatus := idle, lastSaved := None, retryCount := 0,
            isSaving := False \<rparr>)"

datatype event =
  Render string | FireDebounce | FireRetry nat | Settle nat bool int | Save | Reset | PageHidden

fun step :: "config \<Rightarrow> event \<Rightarrow> scheduler \<Rightarrow> scheduler" where
  "step cfg (Render data) s = render cfg data s"
| "step cfg FireDebounce s =
     (case debounceTimer s of
        None \<Rightarrow> s
      | Some (d, payload) \<Rightarrow> performSave cfg payload (s\<lparr> debounceTimer := None \<rparr>))"
| "step cfg (FireRetry k) s =
     (if k < length (retryTimers s)
      then performSave cfg (snd (retryTimers s ! k))
             (s\<lparr> retryTimers := take k (retryTimers s) @ drop (Suc k) (retryTimers s) \<rparr>)
      else s)"
| "step cfg (Settle k ok now) s = settle cfg k ok now s"
| "step cfg Save s = save cfg s"
| "step cfg Reset s = reset cfg s"
| "step cfg PageHidden s =
     (if saveStatus s = typing \<and> enabled cfg then performSave cfg (lastData s) s else s)"

fun run :: "config \<Rightarrow> event list \<Rightarrow> scheduler \<Rightarrow> scheduler" where
  "run cfg [] s = s"
| "run cfg (e # es) s = run cfg es (step cfg e s)"


section \<open>A host to run the model on\<close>

text \<open>
  A browser for the examples. Its clock-facing functions are tabulated for the first
  seconds of 1970, with the values the real functions have there (locale \<open>en-US\<close>, time
  zone UTC); every other string is not a date, as \<open>new Date(''x'')\<close> is not. The texts of
  the examples are ASCII, and on ASCII text \<open>trim\<close> strips the six ASCII white space and
  line terminator characters and \<open>toLowerCase\<close> maps \<open>A\<close>..\<open>Z\<close> to \<open>a\<close>..\<open>z\<close>; the
  two functions of this host do that and leave every other byte alone. Its engine sorts
  by insertion also when the comparator is not consistent. Its \<open>localStorage\<close> has
  room; \<open>full_browser\<close> is the same host with no room left.
\<close>

definition isWhiteSpace :: "char \<Rightarrow> bool" where
  "isWhiteSpace c \<longleftrightarrow> c \<in> set [CHR 0x09, CHR 0x0A, CHR 0x0B, CHR 0x0C, CHR 0x0D, CHR 0x20]"

definition lowerChar :: "char \<Rightarrow> char" where
  "lowerChar c =
     (let n = (of_char c :: nat) in if 65 \<le> n \<and> n \<le> 90 then char_of (n + 32) else c)"

definition iso_1970 :: "(int \<times> string) list" where
  "iso_1970 =
     [(0, ''1970-01-01T00:00:00.000Z''), (1000, ''1970-01-01T00:00:01.000Z''),
      (2000, ''1970-01-01T00:00:02.000Z''), (3000, ''1970-01-01T00:00:03.000Z''),
      (4000, ''1970-01-01T00:00:04.000Z''), (5000, ''1970-01-01T00:00:05.000Z'')]"

definition browser :: host where
  "browser =
     \<lparr> trim = (\<lambda>s. rev (dropWhile isWhiteSpace (rev (dropWhile isWhiteSpace s)))),
       toLowerCase = map lowerChar,
       Date_parse = map_of (map (\<lambda>(t, s). (s, t)) iso_1970),
       toISOString = (\<lambda>t. case map_of iso_1970 t of None \<Rightarrow> [] | Some s \<Rightarrow> s),
       toLocaleDateString =
         (\<lambda>d. case d of
                None \<Rightarrow> ''Invalid Date''
              | Some t \<Rightarrow> (case map_of iso_1970 t of None \<Rightarrow> [] | Some s \<Rightarrow> ''1/1/1970'')),
       engine_sort = insertion_sort,
       setItem_fails = (\<lambda>data. False) \<rparr>"

definition full_browser :: host where
  "full_browser = browser\<lparr> setItem_fails := (\<lambda>data. True) \<rparr>"

text \<open>
  The hook as the page calls it: \<open>enabled\<close> while a memo is selected, and the defaults
  \<open>delay = DEBOUNCE_DELAY\<close> and \<open>maxRetries = 3\<close>.
\<close>

definition page :: config where
  "page = \<lparr> enabled = True, delay = DEBOUNCE_DELAY, maxRetries = 3 \<rparr>"

text \<open>Sample data: three ids of the required shape, and a record as it is stored.\<close>

definition id_A :: string where
  "id_A = ''550e8400-e29b-41d4-a716-446655440000''"

definition id_B :: string where
  "id_B = ''6ba7b810-9dad-41d1-80b4-00c04fd430c8''"

definition id_C :: string where
  "id_C = ''7c9e6679-7425-40de-944b-e07fc1f90ae7''"

definition stored_record :: "string \<Rightarrow> string \<Rightarrow> string \<Rightarrow> string \<Rightarrow> json" where
  "stored_record i c ca ua =
     JObj [(''id'', JStr i), (''content'', JStr c), (''createdAt'', JStr ca),
           (''updatedAt'', JStr ua)]"

section \<open>Notions used to state the properties\<close>

text \<open>
  \<open>a.getTime() >= b.getTime()\<close> on two dates: false as soon as one of them is an Invalid
  Date.
\<close>

definition date_ge :: "date \<Rightarrow> date \<Rightarrow> bool" where
  "date_ge a b = (case (a, b) of (Some x, Some y) \<Rightarrow> x \<ge> y | _ \<Rightarrow> False)"

text \<open>
  A date that a write followed by a read gives back: it is a valid date, and the host
  parses the ISO string it prints for it to the same time value (as JavaScript does for
  every valid date).
\<close>

definition date_roundtrips :: "host \<Rightarrow> date \<Rightarrow> bool" where
  "date_roundtrips h d =
     (case d of None \<Rightarrow> False | Some t \<Rightarrow> Date_parse h (toISOString h t) = Some t)"

definition memo_roundtrips :: "host \<Rightarrow> memo \<Rightarrow> bool" where
  "memo_roundtrips h m \<longleftrightarrow> date_roundtrips h (createdAt m) \<and> date_roundtrips h (updatedAt m)"

text \<open>
  The heading of an exported section in the words of the specification: the first
  non-blank line of the content, or the placeholder if the content is blank.
\<close>

definition spec_heading :: "host \<Rightarrow> string \<Rightarrow> string" where
  "spec_heading h content' =
     (case find (\<lambda>l. trim h l \<noteq> []) (split (CHR 0x0A) content') of
        None \<Rightarrow> untitled
      | Some l \<Rightarrow> l)"

text \<open>
  Events after which the hook is left alone: no render with new data and no call of
  \<open>save\<close>.
\<close>

definition quiet :: "string \<Rightarrow> event \<Rightarrow> bool" where
  "quiet data e = (case e of Render d \<Rightarrow> d = data | Save \<Rightarrow> False | _ \<Rightarrow> True)"

text \<open>An attempt is under way: the state between the call of \<open>onSave\<close> and its outcome.\<close>

definition attempting :: "string \<Rightarrow> nat \<Rightarrow> nat \<Rightarrow> scheduler \<Rightarrow> bool" where
  "attempting p k n s \<longleftrightarrow>
     inFlight s = [p] \<and> isSaving s \<and> saveStatus s = saving \<and> retryTimers s = [] \<and>
     retryCount s = k \<and> length (commits s) = n \<and> (debounceTimer s = None \<or> cleanup s)"

text \<open>Nothing is pending and nothing is under way.\<close>

definition at_rest :: "string \<Rightarrow> scheduler \<Rightarrow> bool" where
  "at_rest data s \<longleftrightarrow>
     debounceTimer s = None \<and> retryTimers s = [] \<and> inFlight s = [] \<and>
     saveStatus s \<noteq> typing \<and> lastData s = data"

text \<open>
  A pending debounce timer carries the latest data, and the effect that set it has
  returned its cleanup.
\<close>

definition debounce_fresh :: "scheduler \<Rightarrow> bool" where
  "debounce_fresh s \<longleftrightarrow>
     (case debounceTimer s of
        None \<Rightarrow> True
      | Some (d, payload) \<Rightarrow> payload = lastData s \<and> cleanup s)"

section \<open>Properties of the search filter\<close>

lemma str_includes_sublist: "str_includes s q \<longleftrightarrow> sublist q s"
proof (induction s)
  case Nil
  show ?case by auto
next
  case (Cons c cs)
  show ?case
  proof (cases q)
    case Nil
    then show ?thesis by simp
  next
    case (Cons d ds)
    with Cons.IH show ?thesis by (simp add: sublist_Cons_right)
  qed
qed

lemma browser_strings:
  "trim browser s = rev (dropWhile isWhiteSpace (rev (dropWhile isWhiteSpace s)))"
  "toLowerCase browser s = map lowerChar s"
  by (simp_all add: browser_def)

text \<open>
  C6. Let the host's \<open>toLowerCase\<close> give the empty string for the empty string only,
  which is so in JavaScript. A query that is empty, or that is white space only (the
  host's \<open>trim\<close> leaves nothing of it), matches every text. For any other query
  \<open>searchInText\<close> (case-insensitive, the default) holds exactly when the lowercase text
  can be written as some prefix, then the lowercase query, then some suffix: plain
  substring containment, nothing is split into words.
\<close>

theorem searchInText_matches:
  assumes lower: "\<And>s. toLowerCase h s = [] \<longleftrightarrow> s = []"
  shows "(query = [] \<or> trim h query = [] \<longrightarrow> searchInText h text query False) \<and>
   (query \<noteq> [] \<and> trim h query \<noteq> [] \<longrightarrow>
      searchInText h text query False =
        (\<exists>ps ss. toLowerCase h text = ps @ toLowerCase h query @ ss))"
proof (intro conjI impI)
  assume "query = [] \<or> trim h query = []"
  then show "searchInText h text query False"
    by (auto simp: searchInText_def)
next
  assume q: "query \<noteq> [] \<and> trim h query \<noteq> []"
  show "searchInText h text query False =
        (\<exists>ps ss. toLowerCase h text = ps @ toLowerCase h query @ ss)"
  proof (cases "text = []")
    case True
    from q lower have "toLowerCase h query \<noteq> []"
      by simp
    moreover from True lower have "toLowerCase h text = []"
      by simp
    ultimately have "\<not> (\<exists>ps ss. toLowerCase h text = ps @ toLowerCase h query @ ss)"
      by simp
    with True q show ?thesis
      by (simp add: searchInText_def)
  next
    case False
    with q show ?thesis
      by (simp add: searchInText_def str_includes_sublist sublist_def)
  qed
qed

text \<open>
  The theorem on the sample host, at the examples the specification gives: the empty
  query and a blank query match, \<open>hello\<close> is found in \<open>Hello World\<close>, and \<open>xyz\<close> is not
  found in \<open>Hello\<close>.
\<close>

theorem searchInText_matches_witness:
  "(\<forall>s. toLowerCase browser s = [] \<longleftrightarrow> s = []) \<and>
   searchInText browser ''Hello'' [] False \<and>
   trim browser ''  '' = [] \<and>
   searchInText browser ''Hello'' ''  '' False \<and>
   searchInText browser ''Hello World'' ''hello'' False \<and>
   (\<exists>ps ss. toLowerCase browser ''Hello World'' = ps @ toLowerCase browser ''hello'' @ ss) \<and>
   \<not> searchInText browser ''Hello'' ''xyz'' False \<and>
   \<not> (\<exists>ps ss. toLowerCase browser ''Hello'' = ps @ toLowerCase browser ''xyz'' @ ss)"
proof -
  have lower: "toLowerCase browser s = [] \<longleftrightarrow> s = []" for s
    by (simp add: browser_strings)
  have blank: "trim browser ''  '' = []"
    by (simp add: browser_strings isWhiteSpace_def)
  have word: "''hello'' \<noteq> [] \<and> trim browser ''hello'' \<noteq> []"
    by (simp add: browser_strings isWhiteSpace_def)
  have other: "''xyz'' \<noteq> [] \<and> trim browser ''xyz'' \<noteq> []"
    by (simp add: browser_strings isWhiteSpace_def)
  have hit: "searchInText browser ''Hello World'' ''hello'' False"
    by code_simp
  have miss: "\<not> searchInText browser ''Hello'' ''xyz'' False"
    by code_simp
  from searchInText_matches [of browser "[]" "''Hello''", OF lower]
  have e: "searchInText browser ''Hello'' [] False" by simp
  from searchInText_matches [of browser "''  ''" "''Hello''", OF lower] blank
  have b: "searchInText browser ''Hello'' ''  '' False" by blast
  from searchInText_matches [of browser "''hello''" "''Hello World''", OF lower] word hit
  have s: "\<exists>ps ss. toLowerCase browser ''Hello World'' = ps @ toLowerCase browser ''hello'' @ ss"
    by blast
  from searchInText_matches [of browser "''xyz''" "''Hello''", OF lower] other miss
  have n: "\<not> (\<exists>ps ss. toLowerCase browser ''Hello'' = ps @ toLowerCase browser ''xyz'' @ ss)"
    by blast
  from lower blank e b hit miss s n show ?thesis by blast
qed

text \<open>
  \<open>filteredMemos\<close> of useMemos.ts keeps exactly the memos whose content matches; its own
  test for a blank query agrees with the one inside \<open>searchInText\<close>.
\<close>

lemma filteredMemos_filter:
  "filteredMemos h memos searchQuery =
     filter (\<lambda>memo. searchInText h (content memo) searchQuery False) memos"
  by (simp add: filteredMemos_def searchInText_def)

section \<open>Properties of the store\<close>

subsection \<open>The sample data and the sample host\<close>

lemma valid_ids: "isValidId id_A" "isValidId id_B" "isValidId id_C"
  unfolding id_A_def id_B_def id_C_def by code_simp+

lemma ids_differ: "id_A \<noteq> id_B" "id_B \<noteq> id_A" "id_A \<noteq> id_C" "id_B \<noteq> id_C"
  by (simp_all add: id_A_def id_B_def id_C_def)

lemma isValidMemoData_stored_record: "isValidMemoData (stored_record i c ca ua) = isValidId i"
  by (simp add: isValidMemoData_def stored_record_def has_prop_def)

lemma toMemo_stored_record:
  "toMemo h (stored_record i c ca ua) =
     \<lparr> memo_id = i, content = c, createdAt = Date_parse h ca, updatedAt = Date_parse h ua \<rparr>"
  by (simp add: toMemo_def stored_record_def)

lemma browser_simps:
  "Date_parse browser ''1970-01-01T00:00:00.000Z'' = Some 0"
  "Date_parse browser ''1970-01-01T00:00:01.000Z'' = Some 1000"
  "Date_parse browser ''1970-01-01T00:00:02.000Z'' = Some 2000"
  "Date_parse browser ''1970-01-01T00:00:03.000Z'' = Some 3000"
  "Date_parse browser ''1970-01-01T00:00:04.000Z'' = Some 4000"
  "Date_parse browser ''1970-01-01T00:00:05.000Z'' = Some 5000"
  "Date_parse browser ''x'' = None"
  "toISOString browser 0 = ''1970-01-01T00:00:00.000Z''"
  "toISOString browser 1000 = ''1970-01-01T00:00:01.000Z''"
  "toISOString browser 2000 = ''1970-01-01T00:00:02.000Z''"
  "toISOString browser 3000 = ''1970-01-01T00:00:03.000Z''"
  "toISOString browser 4000 = ''1970-01-01T00:00:04.000Z''"
  "toISOString browser 5000 = ''1970-01-01T00:00:05.000Z''"
  "setItem_fails browser data = False"
  "toLocaleDateString browser (Some 2000) = ''1/1/1970''"
  by (simp_all add: browser_def iso_1970_def)

lemma browser_roundtrips:
  "date_roundtrips browser (Some 1000)" "date_roundtrips browser (Some 2000)"
  "date_roundtrips browser (Some 3000)" "date_roundtrips browser (Some 4000)"
  by (simp_all add: date_roundtrips_def browser_simps)

subsection \<open>What a read returns\<close>

lemma map_items_invalid:
  "\<exists>x\<in>set items. \<not> isValidMemoData x \<Longrightarrow>
   \<exists>bad\<in>set items. \<not> isValidMemoData bad \<and> map_items h items = Inl (InvalidMemoData bad)"
proof (induction items)
  case Nil
  then show ?case by simp
next
  case (Cons item items)
  show ?case
  proof (cases "isValidMemoData item")
    case False
    then show ?thesis by auto
  next
    case True
    with Cons.prems have "\<exists>x\<in>set items. \<not> isValidMemoData x" by auto
    from Cons.IH [OF this] obtain bad where
      "bad \<in> set items" "\<not> isValidMemoData bad" "map_items h items = Inl (InvalidMemoData bad)"
      by blast
    with True show ?thesis by auto
  qed
qed

lemma map_items_all_valid:
  "list_all isValidMemoData items \<Longrightarrow> map_items h items = Inr (map (toMemo h) items)"
  by (induction items) auto

lemma map_items_some_invalid:
  "\<not> list_all isValidMemoData items \<Longrightarrow> \<exists>e. map_items h items = Inl e"
  by (induction items) (auto split: sum.splits)

lemma map_items_Inr_iff:
  "map_items h items = Inr ms \<longleftrightarrow> list_all isValidMemoData items \<and> ms = map (toMemo h) items"
proof (cases "list_all isValidMemoData items")
  case True
  from map_items_all_valid [OF this, of h] True show ?thesis by auto
next
  case False
  from map_items_some_invalid [OF this, of h] False show ?thesis by auto
qed

lemma getMemos_Document_Inr_iff:
  "getMemos h (Browser (Some (Document (JArr items)))) = Inr ms \<longleftrightarrow>
     list_all isValidMemoData items \<and> ms = Array_sort h compareFn (map (toMemo h) items)"
proof (cases "map_items h items")
  case (Inl e)
  then have "\<not> list_all isValidMemoData items"
    using map_items_Inr_iff [of h items] by auto
  with Inl show ?thesis
    by (auto simp: getMemos_def getMemos_try_def)
next
  case (Inr memos)
  then show ?thesis
    using map_items_Inr_iff [of h items memos]
    by (auto simp: getMemos_def getMemos_try_def)
qed

lemma getMemos_PARSE_ERROR_iff:
  "getMemos h env = Inl (StorageError PARSE_ERROR msg cause) \<longleftrightarrow>
   env = Browser (Some Garbled) \<and> msg = STORAGE_PARSE_ERROR \<and> cause = Some SyntaxError"
proof -
  have m: "map_items h items \<noteq> Inl SyntaxError" for items
    by (induction items) (auto split: sum.splits)
  show ?thesis
    using m
    by (auto simp: getMemos_def getMemos_try_def
        split: env.splits option.splits stored.splits json.splits sum.splits if_splits)
qed

text \<open>
  C1, as the code has it. When the stored value is a sequence and some element fails
  \<open>isValidMemoData\<close>, \<open>getMemos\<close> throws for the whole read and returns no list, not
  even a partial one; the \<open>StorageError\<close> it throws has type \<open>UNKNOWN\<close> and carries the
  \<open>Error\<close> raised for the first failing element. \<open>PARSE_ERROR\<close> is thrown in one case
  only: the stored text is not JSON, so that \<open>JSON.parse\<close> throws \<open>SyntaxError\<close>.
\<close>

theorem getMemos_invalid_record:
  "((\<exists>x\<in>set items. \<not> isValidMemoData x) \<longrightarrow>
      (\<exists>bad\<in>set items. \<not> isValidMemoData bad \<and>
         getMemos h (Browser (Some (Document (JArr items)))) =
           Inl (StorageError UNKNOWN UNKNOWN_ERROR (Some (InvalidMemoData bad))))) \<and>
   (getMemos h env = Inl (StorageError PARSE_ERROR msg cause) \<longleftrightarrow>
      env = Browser (Some Garbled) \<and> msg = STORAGE_PARSE_ERROR \<and> cause = Some SyntaxError)"
proof (intro conjI impI)
  assume "\<exists>x\<in>set items. \<not> isValidMemoData x"
  from map_items_invalid [OF this, of h] obtain bad where
    b: "bad \<in> set items" "\<not> isValidMemoData bad" "map_items h items = Inl (InvalidMemoData bad)"
    by blast
  then have "getMemos h (Browser (Some (Document (JArr items)))) =
        Inl (StorageError UNKNOWN UNKNOWN_ERROR (Some (InvalidMemoData bad)))"
    by (simp add: getMemos_def getMemos_try_def)
  with b show "\<exists>bad\<in>set items. \<not> isValidMemoData bad \<and>
      getMemos h (Browser (Some (Document (JArr items)))) =
        Inl (StorageError UNKNOWN UNKNOWN_ERROR (Some (InvalidMemoData bad)))"
    by blast
next
  show "getMemos h env = Inl (StorageError PARSE_ERROR msg cause) \<longleftrightarrow>
      env = Browser (Some Garbled) \<and> msg = STORAGE_PARSE_ERROR \<and> cause = Some SyntaxError"
    by (rule getMemos_PARSE_ERROR_iff)
qed

text \<open>
  The theorem at a stored sequence of one good record and \<open>null\<close>: the read fails with
  \<open>UNKNOWN\<close>, for \<open>null\<close>.
\<close>

theorem getMemos_invalid_record_witness:
  "getMemos browser (Browser (Some (Document (JArr
      [stored_record id_A ''Note A'' ''1970-01-01T00:00:01.000Z'' ''1970-01-01T00:00:01.000Z'',
       JNull])))) =
   Inl (StorageError UNKNOWN UNKNOWN_ERROR (Some (InvalidMemoData JNull)))"
proof -
  let ?items = "[stored_record id_A ''Note A'' ''1970-01-01T00:00:01.000Z''
                   ''1970-01-01T00:00:01.000Z'', JNull]"
  have good: "isValidMemoData (stored_record id_A ''Note A'' ''1970-01-01T00:00:01.000Z''
                   ''1970-01-01T00:00:01.000Z'')"
    by (simp add: isValidMemoData_stored_record valid_ids)
  have bad: "\<not> isValidMemoData JNull"
    by (simp add: isValidMemoData_def)
  then have "\<exists>x\<in>set ?items. \<not> isValidMemoData x"
    by simp
  with getMemos_invalid_record [of ?items browser]
  obtain b where "b \<in> set ?items" "\<not> isValidMemoData b"
    "getMemos browser (Browser (Some (Document (JArr ?items)))) =
       Inl (StorageError UNKNOWN UNKNOWN_ERROR (Some (InvalidMemoData b)))"
    by blast
  with good show ?thesis by auto
qed

text \<open>
  The specification asks for \<open>PARSE_ERROR\<close> here. A record whose id is not a UUID fails
  the check, and the error thrown is \<open>UNKNOWN\<close>.
\<close>

theorem getMemos_invalid_record_counterexample:
  "\<not> isValidMemoData (stored_record ''not-a-uuid'' ''Note B'' ''1970-01-01T00:00:02.000Z''
        ''1970-01-01T00:00:02.000Z'') \<and>
   getMemos browser (Browser (Some (Document (JArr
      [stored_record id_A ''Note A'' ''1970-01-01T00:00:01.000Z'' ''1970-01-01T00:00:01.000Z'',
       stored_record ''not-a-uuid'' ''Note B'' ''1970-01-01T00:00:02.000Z''
         ''1970-01-01T00:00:02.000Z''])))) =
   Inl (StorageError UNKNOWN UNKNOWN_ERROR (Some (InvalidMemoData
       (stored_record ''not-a-uuid'' ''Note B'' ''1970-01-01T00:00:02.000Z''
          ''1970-01-01T00:00:02.000Z''))))"
proof -
  have bad: "\<not> isValidId ''not-a-uuid''"
    by code_simp
  then show ?thesis
    by (simp add: getMemos_def getMemos_try_def isValidMemoData_stored_record valid_ids)
qed

subsection \<open>Sorting\<close>

lemma mset_sort_insert: "mset (sort_insert f x ys) = add_mset x (mset ys)"
  by (induction ys) auto

lemma mset_insertion_sort: "mset (insertion_sort f xs) = mset xs"
  unfolding insertion_sort_def by (induction xs) (auto simp: mset_sort_insert)

lemma set_insertion_sort: "set (insertion_sort f xs) = set xs"
  by (metis mset_insertion_sort set_mset_mset)

lemma set_sort_insert: "set (sort_insert f x ys) = insert x (set ys)"
  by (metis mset_sort_insert set_mset_mset set_mset_add_mset_insert)

lemma sorted_sort_insert:
  assumes "updatedAt x \<noteq> None" "\<forall>y\<in>set ys. updatedAt y \<noteq> None"
    and "sorted_wrt (\<lambda>a b. date_ge (updatedAt a) (updatedAt b)) ys"
  shows "sorted_wrt (\<lambda>a b. date_ge (updatedAt a) (updatedAt b)) (sort_insert compareFn x ys)"
  using assms
proof (induction ys)
  case Nil
  then show ?case by simp
next
  case (Cons y ys)
  from Cons.prems obtain tx ty where t: "updatedAt x = Some tx" "updatedAt y = Some ty"
    by auto
  show ?case
  proof (cases "sortCompare compareFn x y \<le> 0")
    case True
    with t have le: "ty \<le> tx"
      by (simp add: sortCompare_def compareFn_def)
    have "date_ge (updatedAt x) (updatedAt z)" if "z \<in> set (y # ys)" for z
    proof -
      from that Cons.prems(2) obtain tz where tz: "updatedAt z = Some tz" by auto
      from that Cons.prems(3) t tz have "tz \<le> ty"
        by (auto simp: date_ge_def)
      with le t tz show ?thesis by (simp add: date_ge_def)
    qed
    with True Cons.prems(3) show ?thesis by simp
  next
    case False
    with t have lt: "tx < ty"
      by (simp add: sortCompare_def compareFn_def)
    from Cons.prems have "sorted_wrt (\<lambda>a b. date_ge (updatedAt a) (updatedAt b)) (sort_insert compareFn x ys)"
      by (intro Cons.IH) auto
    moreover have "date_ge (updatedAt y) (updatedAt z)" if "z \<in> set (sort_insert compareFn x ys)" for z
      using that Cons.prems(3) t lt by (auto simp: set_sort_insert date_ge_def)
    ultimately show ?thesis using False by simp
  qed
qed

lemma sorted_insertion_sort:
  "\<forall>y\<in>set xs. updatedAt y \<noteq> None \<Longrightarrow>
   sorted_wrt (\<lambda>a b. date_ge (updatedAt a) (updatedAt b)) (insertion_sort compareFn xs)"
proof (induction xs)
  case Nil
  then show ?case by (simp add: insertion_sort_def)
next
  case (Cons x xs)
  then have "sorted_wrt (\<lambda>a b. date_ge (updatedAt a) (updatedAt b)) (insertion_sort compareFn xs)"
    by simp
  with Cons.prems have "sorted_wrt (\<lambda>a b. date_ge (updatedAt a) (updatedAt b))
       (sort_insert compareFn x (insertion_sort compareFn xs))"
    by (intro sorted_sort_insert) (auto simp: set_insertion_sort)
  then show ?case by (simp add: insertion_sort_def)
qed

text \<open>
  The comparator of \<open>getMemos\<close> is consistent exactly when every memo of the array has a
  valid \<open>updatedAt\<close>: on an Invalid Date it returns \<open>NaN\<close>.
\<close>

lemma consistent_compareFn:
  assumes "\<forall>m\<in>set ms. updatedAt m \<noteq> None"
  shows "consistent compareFn ms"
  unfolding consistent_def list_all_iff
proof (intro ballI)
  fix a b c assume "a \<in> set ms" "b \<in> set ms" "c \<in> set ms"
  with assms have "updatedAt a \<noteq> None" "updatedAt b \<noteq> None" "updatedAt c \<noteq> None"
    by simp_all
  then obtain ta tb tc where
    "updatedAt a = Some ta" "updatedAt b = Some tb" "updatedAt c = Some tc"
    by blast
  then show "compareFn a b \<noteq> None \<and>
       sortCompare compareFn a a = 0 \<and>
       (if sortCompare compareFn a b = 0 then sortCompare compareFn b a = 0 else True) \<and>
       (if sortCompare compareFn a b = 0 \<and> sortCompare compareFn b c = 0
        then sortCompare compareFn a c = 0 else True) \<and>
       (if sortCompare compareFn a b < 0 \<and> sortCompare compareFn b c < 0
        then sortCompare compareFn a c < 0 else True) \<and>
       (if sortCompare compareFn a b > 0 \<and> sortCompare compareFn b c > 0
        then sortCompare compareFn a c > 0 else True)"
    by (simp add: compareFn_def sortCompare_def)
qed

lemma inconsistent_compareFn:
  assumes "m \<in> set ms" "updatedAt m = None"
  shows "\<not> consistent compareFn ms"
proof
  assume "consistent compareFn ms"
  with assms(1) have "compareFn m m \<noteq> None"
    by (simp add: consistent_def list_all_iff)
  with assms(2) show False
    by (simp add: compareFn_def)
qed

lemma Array_sort_dated:
  "\<forall>m\<in>set ms. updatedAt m \<noteq> None \<Longrightarrow>
   Array_sort h compareFn ms = insertion_sort compareFn ms"
  by (simp add: Array_sort_def consistent_compareFn)

lemma Array_sort_undated:
  "m \<in> set ms \<Longrightarrow> updatedAt m = None \<Longrightarrow>
   Array_sort h compareFn ms = engine_sort h compareFn ms"
  by (simp add: Array_sort_def inconsistent_compareFn)

text \<open>
  An engine returns the elements it was given, in some order. Where a property of every
  host needs this, it is a premise; the sample host has it.
\<close>

lemma mset_Array_sort:
  assumes "\<And>f xs. mset (engine_sort h f xs) = mset xs"
  shows "mset (Array_sort h f xs) = mset xs"
  using assms by (simp add: Array_sort_def mset_insertion_sort)

lemma set_Array_sort:
  assumes "\<And>f xs. mset (engine_sort h f xs) = mset xs"
  shows "set (Array_sort h f xs) = set xs"
  by (metis mset_Array_sort [OF assms] set_mset_mset)

lemma sorted_Array_sort:
  "\<forall>y\<in>set xs. updatedAt y \<noteq> None \<Longrightarrow>
   sorted_wrt (\<lambda>a b. date_ge (updatedAt a) (updatedAt b)) (Array_sort h compareFn xs)"
  by (simp add: Array_sort_dated sorted_insertion_sort)

lemma Array_sort_browser: "Array_sort browser f xs = insertion_sort f xs"
  by (simp add: Array_sort_def browser_def)

lemma browser_engine_sort: "mset (engine_sort browser f xs) = mset xs"
  by (simp add: browser_def mset_insertion_sort)

lemmas eval_read =
  getMemos_Document_Inr_iff isValidMemoData_stored_record valid_ids toMemo_stored_record
  browser_simps Array_sort_browser insertion_sort_def sortCompare_def compareFn_def

text \<open>
  What the sort achieves: a collection that \<open>getMemos\<close> returns and whose records all
  have a valid \<open>updatedAt\<close> is ordered by \<open>updatedAt\<close> descending, and a stored sequence
  with the same records in another order is read as the same records.
\<close>

lemma getMemos_sorted:
  assumes p: "\<And>f xs. mset (engine_sort h f xs) = mset xs"
  shows "(getMemos h env = Inr ms \<and> (\<forall>m\<in>set ms. updatedAt m \<noteq> None) \<longrightarrow>
      sorted_wrt (\<lambda>a b. date_ge (updatedAt a) (updatedAt b)) ms) \<and>
   (mset items' = mset items \<and>
    getMemos h (Browser (Some (Document (JArr items)))) = Inr ms \<longrightarrow>
      (\<exists>ms'. getMemos h (Browser (Some (Document (JArr items')))) = Inr ms' \<and>
             mset ms' = mset ms))"
proof (intro conjI impI)
  assume a: "getMemos h env = Inr ms \<and> (\<forall>m\<in>set ms. updatedAt m \<noteq> None)"
  then have "ms = [] \<or> (\<exists>memos. ms = Array_sort h compareFn memos)"
    by (auto simp: getMemos_def getMemos_try_def
        split: env.splits option.splits stored.splits json.splits sum.splits if_splits)
  then show "sorted_wrt (\<lambda>a b. date_ge (updatedAt a) (updatedAt b)) ms"
  proof
    assume "ms = []"
    then show ?thesis by simp
  next
    assume "\<exists>memos. ms = Array_sort h compareFn memos"
    then obtain memos where m: "ms = Array_sort h compareFn memos" by blast
    with a have "\<forall>y\<in>set memos. updatedAt y \<noteq> None"
      by (simp add: set_Array_sort [OF p])
    from sorted_Array_sort [OF this] m show ?thesis by simp
  qed
next
  assume a: "mset items' = mset items \<and>
    getMemos h (Browser (Some (Document (JArr items)))) = Inr ms"
  then have v: "list_all isValidMemoData items"
    and ms: "ms = Array_sort h compareFn (map (toMemo h) items)"
    by (simp_all add: getMemos_Document_Inr_iff)
  from a have "set items' = set items"
    by (metis set_mset_mset)
  with v have v': "list_all isValidMemoData items'"
    by (simp add: list_all_iff)
  from a have "mset (map (toMemo h) items') = mset (map (toMemo h) items)"
    by (metis mset_map)
  with ms have "mset (Array_sort h compareFn (map (toMemo h) items')) = mset ms"
    by (simp add: mset_Array_sort [OF p])
  with v' show "\<exists>ms'. getMemos h (Browser (Some (Document (JArr items')))) = Inr ms' \<and>
             mset ms' = mset ms"
    by (simp add: getMemos_Document_Inr_iff)
qed

lemma getMemos_sorted_example:
  "getMemos browser (Browser (Some (Document (JArr
      [stored_record id_A ''Note A'' ''1970-01-01T00:00:01.000Z'' ''1970-01-01T00:00:01.000Z'',
       stored_record id_B ''Note B'' ''1970-01-01T00:00:02.000Z'' ''1970-01-01T00:00:03.000Z''])))) =
     Inr [\<lparr> memo_id = id_B, content = ''Note B'', createdAt = Some 2000, updatedAt = Some 3000 \<rparr>,
          \<lparr> memo_id = id_A, content = ''Note A'', createdAt = Some 1000, updatedAt = Some 1000 \<rparr>] \<and>
   sorted_wrt (\<lambda>a b. date_ge (updatedAt a) (updatedAt b))
     [\<lparr> memo_id = id_B, content = ''Note B'', createdAt = Some 2000, updatedAt = Some 3000 \<rparr>,
      \<lparr> memo_id = id_A, content = ''Note A'', createdAt = Some 1000, updatedAt = Some 1000 \<rparr>] \<and>
   (\<exists>ms'. getMemos browser (Browser (Some (Document (JArr
      [stored_record id_B ''Note B'' ''1970-01-01T00:00:02.000Z'' ''1970-01-01T00:00:03.000Z'',
       stored_record id_A ''Note A'' ''1970-01-01T00:00:01.000Z'' ''1970-01-01T00:00:01.000Z''])))) = Inr ms' \<and>
     mset ms' =
       mset [\<lparr> memo_id = id_B, content = ''Note B'', createdAt = Some 2000, updatedAt = Some 3000 \<rparr>,
             \<lparr> memo_id = id_A, content = ''Note A'', createdAt = Some 1000, updatedAt = Some 1000 \<rparr>])"
proof -
  let ?a = "stored_record id_A ''Note A'' ''1970-01-01T00:00:01.000Z'' ''1970-01-01T00:00:01.000Z''"
  let ?b = "stored_record id_B ''Note B'' ''1970-01-01T00:00:02.000Z'' ''1970-01-01T00:00:03.000Z''"
  let ?ms = "[\<lparr> memo_id = id_B, content = ''Note B'', createdAt = Some 2000, updatedAt = Some 3000 \<rparr>,
          \<lparr> memo_id = id_A, content = ''Note A'', createdAt = Some 1000, updatedAt = Some 1000 \<rparr>]"
  have g: "getMemos browser (Browser (Some (Document (JArr [?a, ?b])))) = Inr ?ms"
    by (simp add: eval_read)
  have v: "\<forall>m\<in>set ?ms. updatedAt m \<noteq> None"
    by simp
  have p: "mset [?b, ?a] = mset [?a, ?b]"
    by simp
  from getMemos_sorted [of browser "Browser (Some (Document (JArr [?a, ?b])))" ?ms "[?b, ?a]" "[?a, ?b]",
      OF browser_engine_sort] g v p
  show ?thesis by blast
qed

text \<open>
  A stored record whose \<open>updatedAt\<close> is not the text of a date is read all the same. The
  collection returned then holds a memo with an Invalid Date, and with two memos or more
  it is not ordered, in whatever order the engine leaves it: no date is before or after
  an Invalid Date.
\<close>

lemma undated_unordered:
  assumes "m \<in> set ms" "updatedAt m = None" "2 \<le> length ms"
  shows "\<not> sorted_wrt (\<lambda>a b. date_ge (updatedAt a) (updatedAt b)) ms"
proof
  assume s: "sorted_wrt (\<lambda>a b. date_ge (updatedAt a) (updatedAt b)) ms"
  from assms(1) obtain i where i: "i < length ms" "ms ! i = m"
    by (auto simp: in_set_conv_nth)
  define j where "j = (if i = 0 then 1 else 0 :: nat)"
  with assms(3) have j: "j < length ms" "j \<noteq> i"
    by auto
  show False
  proof (cases "i < j")
    case True
    from sorted_wrt_nth_less [OF s True j(1)] i(2) assms(2) show False
      by (simp add: date_ge_def)
  next
    case False
    with j have "j < i" by simp
    from sorted_wrt_nth_less [OF s this i(1)] i(2) assms(2) show False
      by (simp add: date_ge_def split: option.splits)
  qed
qed

lemma getMemos_undated_unordered:
  assumes p: "\<And>f xs. mset (engine_sort h f xs) = mset xs"
    and g: "getMemos h (Browser (Some (Document (JArr items)))) = Inr ms"
    and i: "stored_record i c ca ua \<in> set items" "Date_parse h ua = None" "2 \<le> length items"
  shows "\<not> sorted_wrt (\<lambda>a b. date_ge (updatedAt a) (updatedAt b)) ms"
proof -
  from g have ms: "ms = Array_sort h compareFn (map (toMemo h) items)"
    by (simp add: getMemos_Document_Inr_iff)
  with i(1) have "toMemo h (stored_record i c ca ua) \<in> set ms"
    by (simp add: set_Array_sort [OF p])
  moreover from i(2) have "updatedAt (toMemo h (stored_record i c ca ua)) = None"
    by (simp add: toMemo_stored_record)
  moreover from ms i(3) have "2 \<le> length ms"
    by (metis mset_Array_sort [OF p] length_map size_mset)
  ultimately show ?thesis
    by (rule undated_unordered)
qed

text \<open>
  C8 fails on a store that \<open>getMemos\<close> accepts. \<open>isValidMemoData\<close> asks that \<open>updatedAt\<close>
  is a string, not that it is the text of a date, so a record stamped \<open>x\<close> is read, with
  an Invalid Date. Every comparison with it is \<open>NaN\<close>, which \<open>sort\<close> takes for equal: the
  three records are returned as they were stored, the one of second 1 before the one of
  second 2, and the collection returned is not ordered by \<open>updatedAt\<close> descending.
\<close>

theorem getMemos_unordered:
  "getMemos browser (Browser (Some (Document (JArr
      [stored_record id_A ''Note A'' ''1970-01-01T00:00:01.000Z'' ''1970-01-01T00:00:01.000Z'',
       stored_record id_B ''Note B'' ''x'' ''x'',
       stored_record id_C ''Note C'' ''1970-01-01T00:00:02.000Z'' ''1970-01-01T00:00:02.000Z''])))) =
     Inr [\<lparr> memo_id = id_A, content = ''Note A'', createdAt = Some 1000, updatedAt = Some 1000 \<rparr>,
          \<lparr> memo_id = id_B, content = ''Note B'', createdAt = None, updatedAt = None \<rparr>,
          \<lparr> memo_id = id_C, content = ''Note C'', createdAt = Some 2000, updatedAt = Some 2000 \<rparr>] \<and>
   \<not> sorted_wrt (\<lambda>a b. date_ge (updatedAt a) (updatedAt b))
     [\<lparr> memo_id = id_A, content = ''Note A'', createdAt = Some 1000, updatedAt = Some 1000 \<rparr>,
      \<lparr> memo_id = id_B, content = ''Note B'', createdAt = None, updatedAt = None \<rparr>,
      \<lparr> memo_id = id_C, content = ''Note C'', createdAt = Some 2000, updatedAt = Some 2000 \<rparr>] \<and>
   \<not> date_ge (Some 1000) (Some 2000)"
  by (simp add: eval_read date_ge_def)

subsection \<open>Looking a memo up\<close>

text \<open>
  C9. \<open>getMemoById\<close> returns a memo or \<open>undefined\<close> and throws nothing: its result type
  has no error. Whenever the read of the stored collection fails, whatever the error, it
  returns \<open>undefined\<close>, which is also what it returns on an empty store: on this path a
  corrupted store cannot be told from an absent memo.
\<close>

theorem getMemoById_read_failure:
  "getMemos h env = Inl e \<longrightarrow>
     getMemoById h env i = None \<and> getMemoById h env i = getMemoById h (Browser None) i"
  by (simp add: getMemoById_def getMemos_def getMemos_try_def)

text \<open>
  The theorem at a store whose text is not JSON and at a store holding \<open>[null]\<close>: both
  reads fail, and both lookups return \<open>undefined\<close>.
\<close>

theorem getMemoById_read_failure_witness:
  "getMemos browser (Browser (Some Garbled)) =
     Inl (StorageError PARSE_ERROR STORAGE_PARSE_ERROR (Some SyntaxError)) \<and>
   getMemoById browser (Browser (Some Garbled)) id_A = None \<and>
   getMemos browser (Browser (Some (Document (JArr [JNull])))) =
     Inl (StorageError UNKNOWN UNKNOWN_ERROR (Some (InvalidMemoData JNull))) \<and>
   getMemoById browser (Browser (Some (Document (JArr [JNull])))) id_A = None \<and>
   getMemoById browser (Browser None) id_A = None"
proof -
  have g: "getMemos browser (Browser (Some Garbled)) =
     Inl (StorageError PARSE_ERROR STORAGE_PARSE_ERROR (Some SyntaxError))"
    by (simp add: getMemos_def getMemos_try_def)
  have u: "getMemos browser (Browser (Some (Document (JArr [JNull])))) =
     Inl (StorageError UNKNOWN UNKNOWN_ERROR (Some (InvalidMemoData JNull)))"
    by (simp add: getMemos_def getMemos_try_def isValidMemoData_def)
  from getMemoById_read_failure [of browser "Browser (Some Garbled)"
      "StorageError PARSE_ERROR STORAGE_PARSE_ERROR (Some SyntaxError)" id_A] g
  have both: "getMemoById browser (Browser (Some Garbled)) id_A = None \<and>
      getMemoById browser (Browser (Some Garbled)) id_A = getMemoById browser (Browser None) id_A"
    by blast
  then have 1: "getMemoById browser (Browser (Some Garbled)) id_A = None"
    by blast
  from both have 2: "getMemoById browser (Browser None) id_A = None"
    by metis
  from getMemoById_read_failure [of browser "Browser (Some (Document (JArr [JNull])))"
      "StorageError UNKNOWN UNKNOWN_ERROR (Some (InvalidMemoData JNull))" id_A] u
  have 3: "getMemoById browser (Browser (Some (Document (JArr [JNull])))) id_A = None"
    by blast
  from g u 1 2 3 show ?thesis by simp
qed

subsection \<open>Writing, then reading\<close>

lemma isValidMemoData_memo_toJSON:
  "isValidMemoData (memo_toJSON h m) \<longleftrightarrow>
     isValidId (memo_id m) \<and> createdAt m \<noteq> None \<and> updatedAt m \<noteq> None"
  by (auto simp: isValidMemoData_def memo_toJSON_def has_prop_def date_toJSON_def
      split: option.splits)

lemma toMemo_memo_toJSON:
  "memo_roundtrips h m \<Longrightarrow> toMemo h (memo_toJSON h m) = m"
  by (auto simp: toMemo_def memo_toJSON_def date_toJSON_def memo_roundtrips_def
      date_roundtrips_def split: option.splits)

lemma memo_roundtrips_valid:
  "memo_roundtrips h m \<Longrightarrow> createdAt m \<noteq> None \<and> updatedAt m \<noteq> None"
  by (auto simp: memo_roundtrips_def date_roundtrips_def split: option.splits)

lemma map_items_memo_toJSON:
  "\<forall>m\<in>set ms. isValidId (memo_id m) \<and> memo_roundtrips h m \<Longrightarrow>
   map_items h (map (memo_toJSON h) ms) = Inr ms"
  by (induction ms)
     (auto simp: isValidMemoData_memo_toJSON toMemo_memo_toJSON dest: memo_roundtrips_valid)

lemma getMemos_written:
  "\<forall>m\<in>set ms. isValidId (memo_id m) \<and> memo_roundtrips h m \<Longrightarrow>
   getMemos h (Browser (Some (Document (memos_toJSON h ms)))) = Inr (Array_sort h compareFn ms)"
  by (simp add: getMemos_def getMemos_try_def memos_toJSON_def map_items_memo_toJSON)

lemma map_items_valid_id:
  "map_items h items = Inr ms \<Longrightarrow> \<forall>m\<in>set ms. isValidId (memo_id m)"
proof (induction items arbitrary: ms)
  case Nil
  then show ?case by simp
next
  case (Cons item items)
  then show ?case
    by (auto simp: isValidMemoData_def toMemo_def split: if_splits sum.splits)
qed

lemma getMemos_valid_id:
  assumes p: "\<And>f xs. mset (engine_sort h f xs) = mset xs"
  shows "getMemos h env = Inr ms \<Longrightarrow> \<forall>m\<in>set ms. isValidId (memo_id m)"
  by (auto simp: getMemos_def getMemos_try_def set_Array_sort [OF p]
      split: env.splits option.splits stored.splits json.splits sum.splits if_splits
      dest: map_items_valid_id)

lemma saveMemos_cases:
  "saveMemos h memos (Browser old) =
     (let data = JSON_stringify [] [] (memos_toJSON h memos) in
      if length data > STORAGE_QUOTA_LIMIT
      then (Inl (StorageError QUOTA_EXCEEDED STORAGE_QUOTA_EXCEEDED None), Browser old)
      else if setItem_fails h data
      then (Inl (StorageError QUOTA_EXCEEDED STORAGE_QUOTA_EXCEEDED (Some QuotaExceededError)),
            Browser old)
      else (Inr (), Browser (Some (Document (memos_toJSON h memos)))))"
  by (simp add: saveMemos_def saveMemos_try_def Let_def)

lemma saveMemos_Inr:
  "saveMemos h memos env = (Inr u, env') \<Longrightarrow>
   (\<exists>old. env = Browser old) \<and> env' = Browser (Some (Document (memos_toJSON h memos)))"
  by (cases env)
     (auto simp: saveMemos_def saveMemos_try_def Let_def split: if_splits)

lemma length_escapeChar: "1 \<le> length (escapeChar c)"
  by (simp add: escapeChar_def)

lemma length_quoteJSONString: "length s < length (quoteJSONString s)"
proof -
  have "length s \<le> length (concat (map escapeChar s))"
  proof (induction s)
    case Nil
    show ?case by simp
  next
    case (Cons c s)
    with length_escapeChar [of c] show ?case by simp
  qed
  then show ?thesis by (simp add: quoteJSONString_def)
qed

lemma length_stringify_single:
  "length (content m) < length (JSON_stringify [] [] (memos_toJSON h [m]))"
proof -
  have "length (quoteJSONString (content m)) \<le> length (JSON_stringify [] [] (memos_toJSON h [m]))"
    by (simp add: memos_toJSON_def memo_toJSON_def)
  with length_quoteJSONString [of "content m"] show ?thesis by linarith
qed

lemmas eval_size =
  memos_toJSON_def memo_toJSON_def date_toJSON_def id_A_def id_B_def browser_simps
  quoteJSONString_def escapeChar_def STORAGE_QUOTA_LIMIT_def

lemmas eval_doc =
  memos_toJSON_def memo_toJSON_def date_toJSON_def browser_simps stored_record_def

text \<open>
  C3, as the code has it. If the serialised collection is larger than
  \<open>STORAGE_QUOTA_LIMIT\<close> bytes, \<open>saveMemos\<close> throws \<open>QUOTA_EXCEEDED\<close> and the stored
  value is the one it was. If it is within the limit, the write is handed to
  \<open>localStorage.setItem\<close>. When the host refuses it for lack of space, \<open>saveMemos\<close> throws
  \<open>QUOTA_EXCEEDED\<close> too, with the host's error as its cause, and the stored value is the
  one it was. When the host accepts it, the stored value is the serialised collection,
  whatever was stored before, and a read returns the collection that was written.
\<close>

theorem saveMemos_quota:
  "(length (JSON_stringify [] [] (memos_toJSON h memos)) > STORAGE_QUOTA_LIMIT \<longrightarrow>
      saveMemos h memos (Browser old) =
        (Inl (StorageError QUOTA_EXCEEDED STORAGE_QUOTA_EXCEEDED None), Browser old)) \<and>
   (length (JSON_stringify [] [] (memos_toJSON h memos)) \<le> STORAGE_QUOTA_LIMIT \<and>
    setItem_fails h (JSON_stringify [] [] (memos_toJSON h memos)) \<longrightarrow>
      saveMemos h memos (Browser old) =
        (Inl (StorageError QUOTA_EXCEEDED STORAGE_QUOTA_EXCEEDED (Some QuotaExceededError)),
         Browser old)) \<and>
   (length (JSON_stringify [] [] (memos_toJSON h memos)) \<le> STORAGE_QUOTA_LIMIT \<and>
    \<not> setItem_fails h (JSON_stringify [] [] (memos_toJSON h memos)) \<longrightarrow>
      saveMemos h memos (Browser old) =
        (Inr (), Browser (Some (Document (memos_toJSON h memos)))) \<and>
      ((\<forall>m\<in>set memos. isValidId (memo_id m) \<and> memo_roundtrips h m) \<longrightarrow>
         getMemos h (snd (saveMemos h memos (Browser old))) =
           Inr (Array_sort h compareFn memos)))"
  by (simp add: saveMemos_cases Let_def getMemos_written)

text \<open>
  The theorem at a collection whose single memo has a content of 5 MiB (refused), and at a
  collection of one short memo, on a host with room (written) and on a host without
  (refused).
\<close>

theorem saveMemos_quota_witness:
  "saveMemos browser
     [\<lparr> memo_id = id_A, content = replicate 5242880 (CHR ''a''), createdAt = Some 0,
        updatedAt = Some 0 \<rparr>]
     (Browser (Some (Document (JArr [])))) =
     (Inl (StorageError QUOTA_EXCEEDED STORAGE_QUOTA_EXCEEDED None),
      Browser (Some (Document (JArr [])))) \<and>
   saveMemos browser
     [\<lparr> memo_id = id_A, content = ''Note A'', createdAt = Some 0, updatedAt = Some 1000 \<rparr>]
     (Browser (Some (Document (JArr [])))) =
     (Inr (), Browser (Some (Document (JArr
        [stored_record id_A ''Note A'' ''1970-01-01T00:00:00.000Z''
           ''1970-01-01T00:00:01.000Z''])))) \<and>
   saveMemos full_browser
     [\<lparr> memo_id = id_A, content = ''Note A'', createdAt = Some 0, updatedAt = Some 1000 \<rparr>]
     (Browser (Some (Document (JArr [])))) =
     (Inl (StorageError QUOTA_EXCEEDED STORAGE_QUOTA_EXCEEDED (Some QuotaExceededError)),
      Browser (Some (Document (JArr []))))"
proof -
  let ?big = "\<lparr> memo_id = id_A, content = replicate 5242880 (CHR ''a''), createdAt = Some 0,
        updatedAt = Some 0 \<rparr>"
  let ?m = "\<lparr> memo_id = id_A, content = ''Note A'', createdAt = Some 0, updatedAt = Some 1000 \<rparr>"
  let ?old = "Some (Document (JArr []))"
  from length_stringify_single [of ?big browser]
  have over: "length (JSON_stringify [] [] (memos_toJSON browser [?big])) > STORAGE_QUOTA_LIMIT"
    by (simp add: STORAGE_QUOTA_LIMIT_def)
  have doc: "memos_toJSON h [?m] = JArr [stored_record id_A ''Note A'' (toISOString h 0) (toISOString h 1000)]" for h
    by (simp add: memos_toJSON_def memo_toJSON_def date_toJSON_def stored_record_def)
  have within: "length (JSON_stringify [] [] (memos_toJSON browser [?m])) \<le> STORAGE_QUOTA_LIMIT"
    by (simp add: memos_toJSON_def memo_toJSON_def date_toJSON_def id_A_def browser_simps
        quoteJSONString_def escapeChar_def STORAGE_QUOTA_LIMIT_def)
  have same: "JSON_stringify [] [] (memos_toJSON full_browser [?m]) =
      JSON_stringify [] [] (memos_toJSON browser [?m])"
    by (simp add: full_browser_def memos_toJSON_def memo_toJSON_def date_toJSON_def)
  have fails: "setItem_fails full_browser data" for data
    by (simp add: full_browser_def)
  have iso: "toISOString full_browser = toISOString browser"
    by (simp add: full_browser_def)
  from saveMemos_quota [of browser "[?big]" ?old] over
  have 1: "saveMemos browser [?big] (Browser ?old) =
     (Inl (StorageError QUOTA_EXCEEDED STORAGE_QUOTA_EXCEEDED None), Browser ?old)"
    by blast
  from saveMemos_quota [of browser "[?m]" ?old] within
  have 2: "saveMemos browser [?m] (Browser ?old) =
     (Inr (), Browser (Some (Document (memos_toJSON browser [?m]))))"
    by (simp add: browser_simps)
  from saveMemos_quota [of full_browser "[?m]" ?old] within same fails
  have 3: "saveMemos full_browser [?m] (Browser ?old) =
     (Inl (StorageError QUOTA_EXCEEDED STORAGE_QUOTA_EXCEEDED (Some QuotaExceededError)),
      Browser ?old)"
    by simp
  from 1 2 3 show ?thesis
    by (simp add: doc browser_simps)
qed

text \<open>
  The specification promises the write for every collection within the quota. On a host
  whose storage is full a collection of one short memo is not written.
\<close>

theorem saveMemos_quota_counterexample:
  "length (JSON_stringify [] [] (memos_toJSON full_browser
     [\<lparr> memo_id = id_A, content = ''Note A'', createdAt = Some 0, updatedAt = Some 1000 \<rparr>]))
     \<le> STORAGE_QUOTA_LIMIT \<and>
   saveMemos full_browser
     [\<lparr> memo_id = id_A, content = ''Note A'', createdAt = Some 0, updatedAt = Some 1000 \<rparr>]
     (Browser (Some (Document (JArr [])))) =
     (Inl (StorageError QUOTA_EXCEEDED STORAGE_QUOTA_EXCEEDED (Some QuotaExceededError)),
      Browser (Some (Document (JArr []))))"
proof -
  let ?m = "\<lparr> memo_id = id_A, content = ''Note A'', createdAt = Some 0, updatedAt = Some 1000 \<rparr>"
  have within: "length (JSON_stringify [] [] (memos_toJSON full_browser [?m])) \<le> STORAGE_QUOTA_LIMIT"
    by (simp add: memos_toJSON_def memo_toJSON_def date_toJSON_def id_A_def browser_simps
        full_browser_def quoteJSONString_def escapeChar_def STORAGE_QUOTA_LIMIT_def)
  have fails: "setItem_fails full_browser data" for data
    by (simp add: full_browser_def)
  from within fails show ?thesis
    by (simp add: saveMemos_cases Let_def)
qed

subsection \<open>updateMemo\<close>

lemma find_findIndex:
  "find P xs = Some x \<Longrightarrow> \<exists>k. findIndex P xs = Some k \<and> k < length xs \<and> xs ! k = x \<and> P x"
proof (induction xs)
  case Nil
  then show ?case by simp
next
  case (Cons y ys)
  show ?case
  proof (cases "P y")
    case True
    with Cons.prems show ?thesis by simp
  next
    case False
    with Cons.prems have "find P ys = Some x" by simp
    from Cons.IH [OF this] obtain k where "findIndex P ys = Some k" "k < length ys" "ys ! k = x" "P x"
      by blast
    with False show ?thesis by simp
  qed
qed

lemma findIndex_find:
  "findIndex P xs = Some k \<Longrightarrow> find P xs = Some (xs ! k) \<and> k < length xs \<and> P (xs ! k)"
proof (induction xs arbitrary: k)
  case Nil
  then show ?case by simp
next
  case (Cons y ys)
  then show ?case
    by (cases "P y") (auto split: option.splits)
qed

lemma updateMemo_Inr:
  assumes "updateMemo h now i updates env = (Inr u, env')"
  shows "\<exists>ms k. getMemos h env = Inr ms \<and> isValidId i \<and> k < length ms \<and>
           findIndex (\<lambda>m. memo_id m = i) ms = Some k \<and> memo_id (ms ! k) = i \<and>
           env' = Browser (Some (Document (memos_toJSON h
                    (ms[k := (ms ! k)\<lparr> content := (case updates of None \<Rightarrow> content (ms ! k) | Some c \<Rightarrow> c),
                                         updatedAt := Some now \<rparr>]))))"
proof -
  from assms obtain existing where
    g: "getMemoById h env i = Some existing"
    and s: "saveMemo h (existing\<lparr> content := (case updates of None \<Rightarrow> content existing | Some c \<Rightarrow> c),
                                   updatedAt := Some now \<rparr>) env = (Inr u, env')"
    by (auto simp: updateMemo_def updateMemo_try_def catch_def Let_def saveMemo_def
        split: option.splits prod.splits sum.splits)
  from g obtain ms where v: "isValidId i" and gm: "getMemos h env = Inr ms"
    and f: "find (\<lambda>memo. memo_id memo = i) ms = Some existing"
    by (auto simp: getMemoById_def split: if_splits sum.splits)
  from find_findIndex [OF f] obtain k where
    k: "findIndex (\<lambda>m. memo_id m = i) ms = Some k" "k < length ms" "ms ! k = existing"
       "memo_id existing = i"
    by blast
  let ?m = "existing\<lparr> content := (case updates of None \<Rightarrow> content existing | Some c \<Rightarrow> c),
                       updatedAt := Some now \<rparr>"
  from s gm k have "saveMemos h (ms[k := ?m]) env = (Inr u, env')"
    by (cases env)
       (auto simp: saveMemo_def saveMemo_try_def catch_def Let_def
          split: prod.splits sum.splits)
  from saveMemos_Inr [OF this] have "env' = Browser (Some (Document (memos_toJSON h (ms[k := ?m]))))"
    by simp
  with v gm k show ?thesis by auto
qed

lemma updateMemo_success:
  assumes g: "getMemos h (Browser st) = Inr ms"
    and v: "isValidId i"
    and f: "findIndex (\<lambda>m. memo_id m = i) ms = Some k"
    and new: "new = (ms ! k)\<lparr> content := (case updates of None \<Rightarrow> content (ms ! k) | Some c \<Rightarrow> c),
                               updatedAt := Some now \<rparr>"
    and sz: "length (JSON_stringify [] [] (memos_toJSON h (ms[k := new]))) \<le> STORAGE_QUOTA_LIMIT"
    and ok: "\<not> setItem_fails h (JSON_stringify [] [] (memos_toJSON h (ms[k := new])))"
  shows "updateMemo h now i updates (Browser st) =
           (Inr (), Browser (Some (Document (memos_toJSON h (ms[k := new])))))"
proof -
  from findIndex_find [OF f] have fd: "find (\<lambda>m. memo_id m = i) ms = Some (ms ! k)"
    and ik: "memo_id (ms ! k) = i"
    by simp_all
  from g v fd have gb: "getMemoById h (Browser st) i = Some (ms ! k)"
    by (simp add: getMemoById_def)
  from ik new have idn: "memo_id new = i" by simp
  from sz ok have sv: "saveMemos h (ms[k := new]) (Browser st) =
      (Inr (), Browser (Some (Document (memos_toJSON h (ms[k := new])))))"
    by (simp add: saveMemos_cases Let_def)
  from g f idn sv have "saveMemo h new (Browser st) =
      (Inr (), Browser (Some (Document (memos_toJSON h (ms[k := new])))))"
    by (simp add: saveMemo_def saveMemo_try_def catch_def Let_def)
  with gb new show ?thesis
    by (simp add: updateMemo_def updateMemo_try_def catch_def Let_def)
qed

lemma updateMemo_not_found:
  "getMemoById h env i = None \<Longrightarrow>
   updateMemo h now i updates env = (Inl (StorageError NOT_FOUND MEMO_NOT_FOUND None), env)"
  by (simp add: updateMemo_def updateMemo_try_def catch_def rethrow_def)

lemma getMemos_after_update:
  assumes p: "\<And>f xs. mset (engine_sort h f xs) = mset xs"
    and g: "getMemos h env = Inr ms"
    and r: "\<forall>m\<in>set ms. memo_roundtrips h m"
    and n: "date_roundtrips h (Some now)"
    and u: "updateMemo h now i updates env = (Inr v, env')"
  shows "\<exists>k. k < length ms \<and> memo_id (ms ! k) = i \<and>
           findIndex (\<lambda>m. memo_id m = i) ms = Some k \<and>
           getMemos h env' =
             Inr (Array_sort h compareFn
               (ms[k := (ms ! k)\<lparr> content := (case updates of None \<Rightarrow> content (ms ! k) | Some c \<Rightarrow> c),
                                   updatedAt := Some now \<rparr>]))"
proof -
  from updateMemo_Inr [OF u] g obtain k where
    k: "k < length ms" "findIndex (\<lambda>m. memo_id m = i) ms = Some k" "memo_id (ms ! k) = i"
    and v: "isValidId i"
    and e: "env' = Browser (Some (Document (memos_toJSON h
              (ms[k := (ms ! k)\<lparr> content := (case updates of None \<Rightarrow> content (ms ! k) | Some c \<Rightarrow> c),
                                  updatedAt := Some now \<rparr>]))))"
    by auto
  let ?m = "(ms ! k)\<lparr> content := (case updates of None \<Rightarrow> content (ms ! k) | Some c \<Rightarrow> c),
                      updatedAt := Some now \<rparr>"
  from k r have "memo_roundtrips h (ms ! k)" by simp
  with n have rm: "memo_roundtrips h ?m"
    by (simp add: memo_roundtrips_def)
  from k v have vm: "isValidId (memo_id ?m)" by simp
  have "\<forall>m\<in>set (ms[k := ?m]). isValidId (memo_id m) \<and> memo_roundtrips h m"
  proof
    fix m assume "m \<in> set (ms[k := ?m])"
    then have "m = ?m \<or> m \<in> set ms"
      by (metis insertE set_update_subset_insert subsetD)
    with rm vm r getMemos_valid_id [OF p g] show "isValidId (memo_id m) \<and> memo_roundtrips h m"
      by auto
  qed
  from getMemos_written [OF this] e k show ?thesis by auto
qed

text \<open>
  \<open>saveMemos\<close> writes \<open>null\<close> for an Invalid Date, and \<open>isValidMemoData\<close> rejects
  \<open>null\<close>. So on every host, a successful \<open>updateMemo\<close> on a collection that holds a
  memo of another id with an Invalid Date leaves a store that cannot be read; the memo
  just updated is not found any more, and the next \<open>updateMemo\<close> for it throws
  \<open>NOT_FOUND\<close>.
\<close>

lemma getMemos_written_undated:
  assumes "m \<in> set ms" "createdAt m = None \<or> updatedAt m = None"
  shows "\<exists>e. getMemos h (Browser (Some (Document (memos_toJSON h ms)))) = Inl e"
proof -
  from assms have "\<not> list_all isValidMemoData (map (memo_toJSON h) ms)"
    by (auto simp: list_all_iff isValidMemoData_memo_toJSON)
  from map_items_some_invalid [OF this] obtain e where
    "map_items h (map (memo_toJSON h) ms) = Inl e"
    by blast
  then show ?thesis
    by (simp add: getMemos_def getMemos_try_def memos_toJSON_def)
qed

lemma updateMemo_undated:
  assumes g: "getMemos h env = Inr ms"
    and m: "m \<in> set ms" "memo_id m \<noteq> i" "createdAt m = None \<or> updatedAt m = None"
    and u: "updateMemo h now i updates env = (Inr v, env')"
  shows "(\<exists>e. getMemos h env' = Inl e) \<and>
         getMemoById h env' i = None \<and>
         updateMemo h now' i updates' env' =
           (Inl (StorageError NOT_FOUND MEMO_NOT_FOUND None), env')"
proof -
  from updateMemo_Inr [OF u] g obtain k where
    k: "k < length ms" "memo_id (ms ! k) = i"
    and e: "env' = Browser (Some (Document (memos_toJSON h
              (ms[k := (ms ! k)\<lparr> content := (case updates of None \<Rightarrow> content (ms ! k) | Some c \<Rightarrow> c),
                                  updatedAt := Some now \<rparr>]))))"
    by auto
  from m(1) obtain j where j: "j < length ms" "ms ! j = m"
    by (auto simp: in_set_conv_nth)
  with k m(2) have "j \<noteq> k" by auto
  with j have "m \<in> set (ms[k := (ms ! k)\<lparr> content := (case updates of None \<Rightarrow> content (ms ! k) | Some c \<Rightarrow> c),
                                  updatedAt := Some now \<rparr>])"
    by (metis length_list_update nth_list_update_neq nth_mem)
  from getMemos_written_undated [OF this m(3)] e obtain er where r: "getMemos h env' = Inl er"
    by blast
  then have n: "getMemoById h env' i = None"
    by (simp add: getMemoById_def)
  from r n updateMemo_not_found [OF n] show ?thesis
    by blast
qed

subsection \<open>Two stores and what the calls do to them\<close>

text \<open>
  The sample store of two notes: what is read from it, and two calls of \<open>updateMemo\<close>
  for the older note.
\<close>

lemma sample_read:
  "getMemos browser (Browser (Some (Document (JArr
      [stored_record id_A ''Note A'' ''1970-01-01T00:00:01.000Z'' ''1970-01-01T00:00:01.000Z'',
       stored_record id_B ''Note B'' ''1970-01-01T00:00:02.000Z'' ''1970-01-01T00:00:02.000Z''])))) =
     Inr [\<lparr> memo_id = id_B, content = ''Note B'', createdAt = Some 2000, updatedAt = Some 2000 \<rparr>,
          \<lparr> memo_id = id_A, content = ''Note A'', createdAt = Some 1000, updatedAt = Some 1000 \<rparr>]"
  by (simp add: eval_read)

lemma sample_update:
  "updateMemo browser 3000 id_A (Some ''new'') (Browser (Some (Document (JArr
      [stored_record id_A ''Note A'' ''1970-01-01T00:00:01.000Z'' ''1970-01-01T00:00:01.000Z'',
       stored_record id_B ''Note B'' ''1970-01-01T00:00:02.000Z'' ''1970-01-01T00:00:02.000Z''])))) =
   (Inr (), Browser (Some (Document (JArr
      [stored_record id_B ''Note B'' ''1970-01-01T00:00:02.000Z'' ''1970-01-01T00:00:02.000Z'',
       stored_record id_A ''new'' ''1970-01-01T00:00:01.000Z'' ''1970-01-01T00:00:03.000Z'']))))"
proof -
  let ?ms = "[\<lparr> memo_id = id_B, content = ''Note B'', createdAt = Some 2000, updatedAt = Some 2000 \<rparr>,
          \<lparr> memo_id = id_A, content = ''Note A'', createdAt = Some 1000, updatedAt = Some 1000 \<rparr>]"
  let ?new = "\<lparr> memo_id = id_A, content = ''new'', createdAt = Some 1000, updatedAt = Some 3000 \<rparr>"
  have f: "findIndex (\<lambda>m. memo_id m = id_A) ?ms = Some 1"
    by (simp add: ids_differ)
  have n: "?new = (?ms ! 1)\<lparr> content := (case Some ''new'' of None \<Rightarrow> content (?ms ! 1) | Some c \<Rightarrow> c),
                               updatedAt := Some 3000 \<rparr>"
    by simp
  have sz: "length (JSON_stringify [] [] (memos_toJSON browser (?ms[1 := ?new]))) \<le> STORAGE_QUOTA_LIMIT"
    by (simp add: memos_toJSON_def memo_toJSON_def date_toJSON_def id_A_def id_B_def browser_simps
        quoteJSONString_def escapeChar_def STORAGE_QUOTA_LIMIT_def)
  have ok: "\<not> setItem_fails browser (JSON_stringify [] [] (memos_toJSON browser (?ms[1 := ?new])))"
    by (simp add: browser_simps)
  from updateMemo_success [OF sample_read valid_ids(1) f n sz ok]
  show ?thesis
    by (simp add: memos_toJSON_def memo_toJSON_def date_toJSON_def browser_simps stored_record_def)
qed

lemma sample_read1:
  "getMemos browser (Browser (Some (Document (JArr
      [stored_record id_B ''Note B'' ''1970-01-01T00:00:02.000Z'' ''1970-01-01T00:00:02.000Z'',
       stored_record id_A ''new'' ''1970-01-01T00:00:01.000Z'' ''1970-01-01T00:00:03.000Z''])))) =
     Inr [\<lparr> memo_id = id_A, content = ''new'', createdAt = Some 1000, updatedAt = Some 3000 \<rparr>,
          \<lparr> memo_id = id_B, content = ''Note B'', createdAt = Some 2000, updatedAt = Some 2000 \<rparr>]"
  by (simp add: eval_read)

lemma sample_update2:
  "updateMemo browser 4000 id_A (Some ''new'') (Browser (Some (Document (JArr
      [stored_record id_B ''Note B'' ''1970-01-01T00:00:02.000Z'' ''1970-01-01T00:00:02.000Z'',
       stored_record id_A ''new'' ''1970-01-01T00:00:01.000Z'' ''1970-01-01T00:00:03.000Z''])))) =
   (Inr (), Browser (Some (Document (JArr
      [stored_record id_A ''new'' ''1970-01-01T00:00:01.000Z'' ''1970-01-01T00:00:04.000Z'',
       stored_record id_B ''Note B'' ''1970-01-01T00:00:02.000Z'' ''1970-01-01T00:00:02.000Z'']))))"
proof -
  let ?ms = "[\<lparr> memo_id = id_A, content = ''new'', createdAt = Some 1000, updatedAt = Some 3000 \<rparr>,
          \<lparr> memo_id = id_B, content = ''Note B'', createdAt = Some 2000, updatedAt = Some 2000 \<rparr>]"
  let ?new = "\<lparr> memo_id = id_A, content = ''new'', createdAt = Some 1000, updatedAt = Some 4000 \<rparr>"
  have f: "findIndex (\<lambda>m. memo_id m = id_A) ?ms = Some 0"
    by simp
  have n: "?new = (?ms ! 0)\<lparr> content := (case Some ''new'' of None \<Rightarrow> content (?ms ! 0) | Some c \<Rightarrow> c),
                               updatedAt := Some 4000 \<rparr>"
    by simp
  have sz: "length (JSON_stringify [] [] (memos_toJSON browser (?ms[0 := ?new]))) \<le> STORAGE_QUOTA_LIMIT"
    by (simp add: eval_size)
  have ok: "\<not> setItem_fails browser (JSON_stringify [] [] (memos_toJSON browser (?ms[0 := ?new])))"
    by (simp add: browser_simps)
  from updateMemo_success [OF sample_read1 valid_ids(1) f n sz ok]
  show ?thesis
    by (simp add: eval_doc)
qed

text \<open>
  A store in which the record of \<open>id_B\<close> carries timestamps that are not dates. It is
  read; the call of \<open>updateMemo\<close> for the other record writes \<open>null\<close> for them, and the
  store cannot be read any more.
\<close>

lemma undated_read:
  "getMemos browser (Browser (Some (Document (JArr
      [stored_record id_A ''Note A'' ''1970-01-01T00:00:01.000Z'' ''1970-01-01T00:00:01.000Z'',
       stored_record id_B ''Note B'' ''x'' ''x''])))) =
     Inr [\<lparr> memo_id = id_A, content = ''Note A'', createdAt = Some 1000, updatedAt = Some 1000 \<rparr>,
          \<lparr> memo_id = id_B, content = ''Note B'', createdAt = None, updatedAt = None \<rparr>]"
  by (simp add: eval_read)

lemma undated_update:
  "updateMemo browser 3000 id_A (Some ''new'') (Browser (Some (Document (JArr
      [stored_record id_A ''Note A'' ''1970-01-01T00:00:01.000Z'' ''1970-01-01T00:00:01.000Z'',
       stored_record id_B ''Note B'' ''x'' ''x''])))) =
   (Inr (), Browser (Some (Document (JArr
      [stored_record id_A ''new'' ''1970-01-01T00:00:01.000Z'' ''1970-01-01T00:00:03.000Z'',
       JObj [(''id'', JStr id_B), (''content'', JStr ''Note B''), (''createdAt'', JNull),
             (''updatedAt'', JNull)]]))))"
proof -
  let ?ms = "[\<lparr> memo_id = id_A, content = ''Note A'', createdAt = Some 1000, updatedAt = Some 1000 \<rparr>,
          \<lparr> memo_id = id_B, content = ''Note B'', createdAt = None, updatedAt = None \<rparr>]"
  let ?new = "\<lparr> memo_id = id_A, content = ''new'', createdAt = Some 1000, updatedAt = Some 3000 \<rparr>"
  have f: "findIndex (\<lambda>m. memo_id m = id_A) ?ms = Some 0"
    by simp
  have n: "?new = (?ms ! 0)\<lparr> content := (case Some ''new'' of None \<Rightarrow> content (?ms ! 0) | Some c \<Rightarrow> c),
                               updatedAt := Some 3000 \<rparr>"
    by simp
  have sz: "length (JSON_stringify [] [] (memos_toJSON browser (?ms[0 := ?new]))) \<le> STORAGE_QUOTA_LIMIT"
    by (simp add: eval_size)
  have ok: "\<not> setItem_fails browser (JSON_stringify [] [] (memos_toJSON browser (?ms[0 := ?new])))"
    by (simp add: browser_simps)
  from updateMemo_success [OF undated_read valid_ids(1) f n sz ok]
  show ?thesis
    by (simp add: eval_doc)
qed

lemma undated_read1:
  "getMemos browser (Browser (Some (Document (JArr
      [stored_record id_A ''new'' ''1970-01-01T00:00:01.000Z'' ''1970-01-01T00:00:03.000Z'',
       JObj [(''id'', JStr id_B), (''content'', JStr ''Note B''), (''createdAt'', JNull),
             (''updatedAt'', JNull)]])))) =
   Inl (StorageError UNKNOWN UNKNOWN_ERROR (Some (InvalidMemoData
       (JObj [(''id'', JStr id_B), (''content'', JStr ''Note B''), (''createdAt'', JNull),
              (''updatedAt'', JNull)]))))"
proof -
  have a: "isValidMemoData (stored_record id_A ''new'' ''1970-01-01T00:00:01.000Z''
             ''1970-01-01T00:00:03.000Z'')"
    by (simp add: isValidMemoData_stored_record valid_ids)
  have b: "\<not> isValidMemoData (JObj [(''id'', JStr id_B), (''content'', JStr ''Note B''),
             (''createdAt'', JNull), (''updatedAt'', JNull)])"
    by (simp add: isValidMemoData_def has_prop_def)
  from a b show ?thesis
    by (simp add: getMemos_def getMemos_try_def)
qed

subsection \<open>What updateMemo leaves alone\<close>

text \<open>
  On a store whose timestamps are all valid dates that the host prints and parses back,
  \<open>updateMemo\<close> does what the claim says. After a successful call for an id the store
  can be read again, and the records whose id differs from the given one are the same
  records as before, each as often as before, with the same id, content, createdAt and
  updatedAt. Exactly one record of the given id is replaced, by itself with the patch
  applied and \<open>updatedAt\<close> set to the time of the call.
\<close>

lemma updateMemo_frame:
  assumes p: "\<And>f xs. mset (engine_sort h f xs) = mset xs"
  shows "getMemos h env = Inr before \<and> (\<forall>m\<in>set before. memo_roundtrips h m) \<and>
   date_roundtrips h (Some now) \<and> updateMemo h now i updates env = (Inr v, env') \<longrightarrow>
   (\<exists>after old.
      getMemos h env' = Inr after \<and>
      mset (filter (\<lambda>m. memo_id m \<noteq> i) after) = mset (filter (\<lambda>m. memo_id m \<noteq> i) before) \<and>
      old \<in> set before \<and> memo_id old = i \<and>
      mset after =
        add_mset (old\<lparr> content := (case updates of None \<Rightarrow> content old | Some c \<Rightarrow> c),
                       updatedAt := Some now \<rparr>)
          (mset before - {#old#}))"
proof
  assume a: "getMemos h env = Inr before \<and> (\<forall>m\<in>set before. memo_roundtrips h m) \<and>
   date_roundtrips h (Some now) \<and> updateMemo h now i updates env = (Inr v, env')"
  then have g: "getMemos h env = Inr before" and r: "\<forall>m\<in>set before. memo_roundtrips h m"
    and n: "date_roundtrips h (Some now)" and u: "updateMemo h now i updates env = (Inr v, env')"
    by simp_all
  from getMemos_after_update [OF p g r n u] obtain k where
    k: "k < length before" "memo_id (before ! k) = i"
    and ga: "getMemos h env' =
             Inr (Array_sort h compareFn
               (before[k := (before ! k)\<lparr> content := (case updates of None \<Rightarrow> content (before ! k) | Some c \<Rightarrow> c),
                                   updatedAt := Some now \<rparr>]))"
    by blast
  let ?old = "before ! k"
  let ?new = "?old\<lparr> content := (case updates of None \<Rightarrow> content ?old | Some c \<Rightarrow> c),
                     updatedAt := Some now \<rparr>"
  let ?after = "Array_sort h compareFn (before[k := ?new])"
  from k have m: "mset ?after = add_mset ?new (mset before - {#?old#})"
    by (simp add: mset_Array_sort [OF p] mset_update)
  from k have inb: "?old \<in># mset before"
    by simp
  have "filter_mset (\<lambda>m. memo_id m \<noteq> i) (mset ?after) =
        filter_mset (\<lambda>m. memo_id m \<noteq> i) (mset before - {#?old#})"
    using k by (simp add: m)
  also have "\<dots> = filter_mset (\<lambda>m. memo_id m \<noteq> i) (mset before)"
  proof -
    from inb have "mset before = add_mset ?old (mset before - {#?old#})"
      by simp
    then have "filter_mset (\<lambda>m. memo_id m \<noteq> i) (mset before) =
        filter_mset (\<lambda>m. memo_id m \<noteq> i) (add_mset ?old (mset before - {#?old#}))"
      by simp
    with k show ?thesis by simp
  qed
  finally have f: "mset (filter (\<lambda>m. memo_id m \<noteq> i) ?after) =
      mset (filter (\<lambda>m. memo_id m \<noteq> i) before)"
    by simp
  from k have "?old \<in> set before" by simp
  with ga f m k show "\<exists>after old.
      getMemos h env' = Inr after \<and>
      mset (filter (\<lambda>m. memo_id m \<noteq> i) after) = mset (filter (\<lambda>m. memo_id m \<noteq> i) before) \<and>
      old \<in> set before \<and> memo_id old = i \<and>
      mset after =
        add_mset (old\<lparr> content := (case updates of None \<Rightarrow> content old | Some c \<Rightarrow> c),
                       updatedAt := Some now \<rparr>)
          (mset before - {#old#})"
    by blast
qed

lemma updateMemo_frame_example:
  "updateMemo browser 3000 id_A (Some ''new'') (Browser (Some (Document (JArr
      [stored_record id_A ''Note A'' ''1970-01-01T00:00:01.000Z'' ''1970-01-01T00:00:01.000Z'',
       stored_record id_B ''Note B'' ''1970-01-01T00:00:02.000Z'' ''1970-01-01T00:00:02.000Z''])))) =
   (Inr (), Browser (Some (Document (JArr
      [stored_record id_B ''Note B'' ''1970-01-01T00:00:02.000Z'' ''1970-01-01T00:00:02.000Z'',
       stored_record id_A ''new'' ''1970-01-01T00:00:01.000Z'' ''1970-01-01T00:00:03.000Z''])))) \<and>
   (\<exists>after. getMemos browser (Browser (Some (Document (JArr
      [stored_record id_B ''Note B'' ''1970-01-01T00:00:02.000Z'' ''1970-01-01T00:00:02.000Z'',
       stored_record id_A ''new'' ''1970-01-01T00:00:01.000Z'' ''1970-01-01T00:00:03.000Z''])))) =
        Inr after \<and>
      mset (filter (\<lambda>m. memo_id m \<noteq> id_A) after) =
        {# \<lparr> memo_id = id_B, content = ''Note B'', createdAt = Some 2000,
              updatedAt = Some 2000 \<rparr> #})"
proof -
  let ?before = "[\<lparr> memo_id = id_B, content = ''Note B'', createdAt = Some 2000, updatedAt = Some 2000 \<rparr>,
          \<lparr> memo_id = id_A, content = ''Note A'', createdAt = Some 1000, updatedAt = Some 1000 \<rparr>]"
  have r: "\<forall>m\<in>set ?before. memo_roundtrips browser m"
    by (simp add: memo_roundtrips_def browser_roundtrips)
  from updateMemo_frame [of browser _ ?before 3000 id_A "Some ''new''" "()", OF browser_engine_sort]
    sample_read r browser_roundtrips(3) sample_update
  obtain after where "getMemos browser (Browser (Some (Document (JArr
      [stored_record id_B ''Note B'' ''1970-01-01T00:00:02.000Z'' ''1970-01-01T00:00:02.000Z'',
       stored_record id_A ''new'' ''1970-01-01T00:00:01.000Z'' ''1970-01-01T00:00:03.000Z''])))) =
        Inr after"
    "mset (filter (\<lambda>m. memo_id m \<noteq> id_A) after) = mset (filter (\<lambda>m. memo_id m \<noteq> id_A) ?before)"
    by blast
  with sample_update show ?thesis
    by (simp add: ids_differ)
qed

text \<open>
  C10 fails on a store that \<open>getMemos\<close> accepts. The record of \<open>id_B\<close> is stamped \<open>x\<close>.
  The call of \<open>updateMemo\<close> for the record of \<open>id_A\<close> succeeds, and \<open>saveMemos\<close> writes
  the record of \<open>id_B\<close> back with \<open>null\<close> for both timestamps: a record with another id
  is changed, and after the call \<open>getMemos\<close> throws for the whole store.
\<close>

theorem updateMemo_spoils_other_record:
  "updateMemo browser 3000 id_A (Some ''new'') (Browser (Some (Document (JArr
      [stored_record id_A ''Note A'' ''1970-01-01T00:00:01.000Z'' ''1970-01-01T00:00:01.000Z'',
       stored_record id_B ''Note B'' ''x'' ''x''])))) =
   (Inr (), Browser (Some (Document (JArr
      [stored_record id_A ''new'' ''1970-01-01T00:00:01.000Z'' ''1970-01-01T00:00:03.000Z'',
       JObj [(''id'', JStr id_B), (''content'', JStr ''Note B''), (''createdAt'', JNull),
             (''updatedAt'', JNull)]])))) \<and>
   getMemos browser (Browser (Some (Document (JArr
      [stored_record id_A ''new'' ''1970-01-01T00:00:01.000Z'' ''1970-01-01T00:00:03.000Z'',
       JObj [(''id'', JStr id_B), (''content'', JStr ''Note B''), (''createdAt'', JNull),
             (''updatedAt'', JNull)]])))) =
   Inl (StorageError UNKNOWN UNKNOWN_ERROR (Some (InvalidMemoData
       (JObj [(''id'', JStr id_B), (''content'', JStr ''Note B''), (''createdAt'', JNull),
              (''updatedAt'', JNull)])))) \<and>
   stored_record id_B ''Note B'' ''x'' ''x'' \<noteq>
     JObj [(''id'', JStr id_B), (''content'', JStr ''Note B''), (''createdAt'', JNull),
           (''updatedAt'', JNull)]"
  using undated_update undated_read1 by (simp add: stored_record_def)

subsection \<open>Updating twice\<close>

lemma map_memo_id_update:
  "k < length ms \<Longrightarrow> memo_id m = memo_id (ms ! k) \<Longrightarrow> map memo_id (ms[k := m]) = map memo_id ms"
  by (simp add: map_update list_update_same_conv)

lemma distinct_ids_Array_sort:
  assumes p: "\<And>f xs. mset (engine_sort h f xs) = mset xs"
    and d: "distinct (map memo_id ms)"
  shows "distinct (map memo_id (Array_sort h f ms))"
proof -
  have "mset (map memo_id (Array_sort h f ms)) = mset (map memo_id ms)"
    by (metis mset_Array_sort [OF p] mset_map)
  with d show ?thesis
    by (metis mset_eq_imp_distinct_iff)
qed

lemma distinct_ids_unique:
  assumes "distinct (map memo_id ms)" "j < length ms" "k < length ms"
    and "memo_id (ms ! j) = memo_id (ms ! k)"
  shows "j = k"
proof -
  from assms have "map memo_id ms ! j = map memo_id ms ! k" by simp
  with assms show ?thesis
    by (metis distinct_conv_nth length_map)
qed

lemma update_eq_map:
  assumes d: "distinct (map memo_id ms)" and k: "k < length ms" and i: "memo_id (ms ! k) = i"
  shows "ms[k := g (ms ! k)] = map (\<lambda>m. if memo_id m = i then g m else m) ms"
proof (rule nth_equalityI)
  show "length (ms[k := g (ms ! k)]) = length (map (\<lambda>m. if memo_id m = i then g m else m) ms)"
    by simp
next
  fix j assume "j < length (ms[k := g (ms ! k)])"
  then have j: "j < length ms" by simp
  show "ms[k := g (ms ! k)] ! j = map (\<lambda>m. if memo_id m = i then g m else m) ms ! j"
  proof (cases "j = k")
    case True
    with k i show ?thesis by simp
  next
    case False
    with distinct_ids_unique [OF d j k] i have "memo_id (ms ! j) \<noteq> i" by auto
    with False j show ?thesis by simp
  qed
qed

text \<open>
  On a store in which every id occurs once, as \<open>generateId\<close> provides, and whose
  timestamps are all valid dates that the host prints and parses back, two calls are one
  call but for \<open>updatedAt\<close>. If \<open>updateMemo\<close> with the content \<open>x\<close> succeeds for an id
  at the time \<open>t1\<close> and again at the time \<open>t2\<close>, then the collection read after the
  second call is the collection read after the first call with the \<open>updatedAt\<close> of the
  memo of that id set to \<open>t2\<close>, put in order again.
\<close>

lemma updateMemo_twice:
  assumes p: "\<And>f xs. mset (engine_sort h f xs) = mset xs"
  shows "getMemos h env0 = Inr ms0 \<and> distinct (map memo_id ms0) \<and>
   (\<forall>m\<in>set ms0. memo_roundtrips h m) \<and>
   date_roundtrips h (Some t1) \<and> date_roundtrips h (Some t2) \<and>
   updateMemo h t1 i (Some x) env0 = (Inr u1, env1) \<and>
   updateMemo h t2 i (Some x) env1 = (Inr u2, env2) \<longrightarrow>
   (\<exists>ms1. getMemos h env1 = Inr ms1 \<and>
      getMemos h env2 =
        Inr (Array_sort h compareFn
               (map (\<lambda>m. if memo_id m = i then m\<lparr> updatedAt := Some t2 \<rparr> else m) ms1)))"
proof
  assume a: "getMemos h env0 = Inr ms0 \<and> distinct (map memo_id ms0) \<and>
   (\<forall>m\<in>set ms0. memo_roundtrips h m) \<and>
   date_roundtrips h (Some t1) \<and> date_roundtrips h (Some t2) \<and>
   updateMemo h t1 i (Some x) env0 = (Inr u1, env1) \<and>
   updateMemo h t2 i (Some x) env1 = (Inr u2, env2)"
  then have g0: "getMemos h env0 = Inr ms0" and d0: "distinct (map memo_id ms0)"
    and r0: "\<forall>m\<in>set ms0. memo_roundtrips h m"
    and n1: "date_roundtrips h (Some t1)" and n2: "date_roundtrips h (Some t2)"
    and up1: "updateMemo h t1 i (Some x) env0 = (Inr u1, env1)"
    and up2: "updateMemo h t2 i (Some x) env1 = (Inr u2, env2)"
    by simp_all
  from getMemos_after_update [OF p g0 r0 n1 up1] obtain k where
    k: "k < length ms0" "memo_id (ms0 ! k) = i"
    and g1: "getMemos h env1 =
       Inr (Array_sort h compareFn (ms0[k := (ms0 ! k)\<lparr> content := x, updatedAt := Some t1 \<rparr>]))"
    by auto
  let ?m1 = "(ms0 ! k)\<lparr> content := x, updatedAt := Some t1 \<rparr>"
  let ?L1 = "ms0[k := ?m1]"
  let ?ms1 = "Array_sort h compareFn ?L1"
  from k have idL1: "map memo_id ?L1 = map memo_id ms0"
    by (simp add: map_memo_id_update)
  with d0 have d1: "distinct (map memo_id ?ms1)"
    by (simp add: distinct_ids_Array_sort [OF p])
  from k r0 n1 have rm1: "memo_roundtrips h ?m1"
    by (simp add: memo_roundtrips_def)
  have setL1: "set ?L1 \<subseteq> insert ?m1 (set ms0)"
    by (rule set_update_subset_insert)
  with r0 rm1 have r1: "\<forall>m\<in>set ?ms1. memo_roundtrips h m"
    by (auto simp: set_Array_sort [OF p])
  from getMemos_after_update [OF p g1 r1 n2 up2] obtain k' where
    k': "k' < length ?ms1" "memo_id (?ms1 ! k') = i"
    and g2: "getMemos h env2 =
       Inr (Array_sort h compareFn (?ms1[k' := (?ms1 ! k')\<lparr> content := x, updatedAt := Some t2 \<rparr>]))"
    by auto
  have cx: "content (?ms1 ! k') = x"
  proof -
    from k' have "?ms1 ! k' \<in> set ?L1"
      by (metis nth_mem set_Array_sort [OF p])
    then obtain j where j: "j < length ?L1" "?L1 ! j = ?ms1 ! k'"
      by (auto simp: in_set_conv_nth)
    from d0 idL1 have dL1: "distinct (map memo_id ?L1)" by simp
    from k have kL: "k < length ?L1" "memo_id (?L1 ! k) = i" by simp_all
    from distinct_ids_unique [OF dL1 j(1) kL(1)] j(2) k'(2) kL(2) have "j = k" by simp
    with j k show ?thesis by auto
  qed
  then have "(?ms1 ! k')\<lparr> content := x, updatedAt := Some t2 \<rparr> = (?ms1 ! k')\<lparr> updatedAt := Some t2 \<rparr>"
    by (metis memo.surjective memo.update_convs(2) memo.update_convs(4))
  with g2 have "getMemos h env2 =
       Inr (Array_sort h compareFn (?ms1[k' := (\<lambda>m. m\<lparr> updatedAt := Some t2 \<rparr>) (?ms1 ! k')]))"
    by simp
  also have "?ms1[k' := (\<lambda>m. m\<lparr> updatedAt := Some t2 \<rparr>) (?ms1 ! k')] =
       map (\<lambda>m. if memo_id m = i then m\<lparr> updatedAt := Some t2 \<rparr> else m) ?ms1"
    by (rule update_eq_map [OF d1 k'])
  finally show "\<exists>ms1. getMemos h env1 = Inr ms1 \<and>
      getMemos h env2 =
        Inr (Array_sort h compareFn
               (map (\<lambda>m. if memo_id m = i then m\<lparr> updatedAt := Some t2 \<rparr> else m) ms1))"
    using g1 by blast
qed

lemma updateMemo_twice_example:
  "updateMemo browser 3000 id_A (Some ''new'') (Browser (Some (Document (JArr
      [stored_record id_A ''Note A'' ''1970-01-01T00:00:01.000Z'' ''1970-01-01T00:00:01.000Z'',
       stored_record id_B ''Note B'' ''1970-01-01T00:00:02.000Z'' ''1970-01-01T00:00:02.000Z''])))) =
   (Inr (), Browser (Some (Document (JArr
      [stored_record id_B ''Note B'' ''1970-01-01T00:00:02.000Z'' ''1970-01-01T00:00:02.000Z'',
       stored_record id_A ''new'' ''1970-01-01T00:00:01.000Z'' ''1970-01-01T00:00:03.000Z''])))) \<and>
   getMemos browser (Browser (Some (Document (JArr
      [stored_record id_B ''Note B'' ''1970-01-01T00:00:02.000Z'' ''1970-01-01T00:00:02.000Z'',
       stored_record id_A ''new'' ''1970-01-01T00:00:01.000Z'' ''1970-01-01T00:00:03.000Z''])))) =
     Inr [\<lparr> memo_id = id_A, content = ''new'', createdAt = Some 1000, updatedAt = Some 3000 \<rparr>,
          \<lparr> memo_id = id_B, content = ''Note B'', createdAt = Some 2000, updatedAt = Some 2000 \<rparr>] \<and>
   updateMemo browser 4000 id_A (Some ''new'') (Browser (Some (Document (JArr
      [stored_record id_B ''Note B'' ''1970-01-01T00:00:02.000Z'' ''1970-01-01T00:00:02.000Z'',
       stored_record id_A ''new'' ''1970-01-01T00:00:01.000Z'' ''1970-01-01T00:00:03.000Z''])))) =
   (Inr (), Browser (Some (Document (JArr
      [stored_record id_A ''new'' ''1970-01-01T00:00:01.000Z'' ''1970-01-01T00:00:04.000Z'',
       stored_record id_B ''Note B'' ''1970-01-01T00:00:02.000Z'' ''1970-01-01T00:00:02.000Z''])))) \<and>
   getMemos browser (Browser (Some (Document (JArr
      [stored_record id_A ''new'' ''1970-01-01T00:00:01.000Z'' ''1970-01-01T00:00:04.000Z'',
       stored_record id_B ''Note B'' ''1970-01-01T00:00:02.000Z'' ''1970-01-01T00:00:02.000Z''])))) =
     Inr [\<lparr> memo_id = id_A, content = ''new'', createdAt = Some 1000, updatedAt = Some 4000 \<rparr>,
          \<lparr> memo_id = id_B, content = ''Note B'', createdAt = Some 2000, updatedAt = Some 2000 \<rparr>]"
proof -
  let ?ms0 = "[\<lparr> memo_id = id_B, content = ''Note B'', createdAt = Some 2000, updatedAt = Some 2000 \<rparr>,
          \<lparr> memo_id = id_A, content = ''Note A'', createdAt = Some 1000, updatedAt = Some 1000 \<rparr>]"
  let ?ms1 = "[\<lparr> memo_id = id_A, content = ''new'', createdAt = Some 1000, updatedAt = Some 3000 \<rparr>,
          \<lparr> memo_id = id_B, content = ''Note B'', createdAt = Some 2000, updatedAt = Some 2000 \<rparr>]"
  let ?env2 = "Browser (Some (Document (JArr
      [stored_record id_A ''new'' ''1970-01-01T00:00:01.000Z'' ''1970-01-01T00:00:04.000Z'',
       stored_record id_B ''Note B'' ''1970-01-01T00:00:02.000Z'' ''1970-01-01T00:00:02.000Z''])))"
  have d: "distinct (map memo_id ?ms0)"
    by (simp add: ids_differ)
  have r: "\<forall>m\<in>set ?ms0. memo_roundtrips browser m"
    by (simp add: memo_roundtrips_def browser_roundtrips)
  from updateMemo_twice [of browser _ ?ms0 3000 4000 id_A "''new''" "()" _ "()" ?env2,
      OF browser_engine_sort]
    sample_read d r browser_roundtrips(3,4) sample_update sample_update2
  obtain ms1 where m1: "getMemos browser (Browser (Some (Document (JArr
      [stored_record id_B ''Note B'' ''1970-01-01T00:00:02.000Z'' ''1970-01-01T00:00:02.000Z'',
       stored_record id_A ''new'' ''1970-01-01T00:00:01.000Z'' ''1970-01-01T00:00:03.000Z''])))) =
        Inr ms1"
    and m2: "getMemos browser ?env2 =
        Inr (Array_sort browser compareFn
               (map (\<lambda>m. if memo_id m = id_A then m\<lparr> updatedAt := Some 4000 \<rparr> else m) ms1))"
    by blast
  from m1 sample_read1 have "ms1 = ?ms1" by simp
  with m2 have "getMemos browser ?env2 =
     Inr [\<lparr> memo_id = id_A, content = ''new'', createdAt = Some 1000, updatedAt = Some 4000 \<rparr>,
          \<lparr> memo_id = id_B, content = ''Note B'', createdAt = Some 2000, updatedAt = Some 2000 \<rparr>]"
    by (simp add: ids_differ Array_sort_browser insertion_sort_def sortCompare_def compareFn_def)
  with sample_update sample_read1 sample_update2 show ?thesis
    by simp
qed

text \<open>
  C7 fails on a store that \<open>getMemos\<close> accepts. The record of \<open>id_B\<close> is stamped \<open>x\<close>.
  The first call of \<open>updateMemo\<close> for \<open>id_A\<close> succeeds and leaves a store that cannot be
  read, so that \<open>getMemoById\<close> finds nothing; the second call, with the same content,
  throws \<open>NOT_FOUND\<close> for the id that has just been updated and writes nothing:
  \<open>updatedAt\<close> stays at the time of the first call.
\<close>

theorem updateMemo_twice_not_found:
  "updateMemo browser 3000 id_A (Some ''new'') (Browser (Some (Document (JArr
      [stored_record id_A ''Note A'' ''1970-01-01T00:00:01.000Z'' ''1970-01-01T00:00:01.000Z'',
       stored_record id_B ''Note B'' ''x'' ''x''])))) =
   (Inr (), Browser (Some (Document (JArr
      [stored_record id_A ''new'' ''1970-01-01T00:00:01.000Z'' ''1970-01-01T00:00:03.000Z'',
       JObj [(''id'', JStr id_B), (''content'', JStr ''Note B''), (''createdAt'', JNull),
             (''updatedAt'', JNull)]])))) \<and>
   getMemoById browser (Browser (Some (Document (JArr
      [stored_record id_A ''new'' ''1970-01-01T00:00:01.000Z'' ''1970-01-01T00:00:03.000Z'',
       JObj [(''id'', JStr id_B), (''content'', JStr ''Note B''), (''createdAt'', JNull),
             (''updatedAt'', JNull)]])))) id_A = None \<and>
   updateMemo browser 4000 id_A (Some ''new'') (Browser (Some (Document (JArr
      [stored_record id_A ''new'' ''1970-01-01T00:00:01.000Z'' ''1970-01-01T00:00:03.000Z'',
       JObj [(''id'', JStr id_B), (''content'', JStr ''Note B''), (''createdAt'', JNull),
             (''updatedAt'', JNull)]])))) =
   (Inl (StorageError NOT_FOUND MEMO_NOT_FOUND None),
    Browser (Some (Document (JArr
      [stored_record id_A ''new'' ''1970-01-01T00:00:01.000Z'' ''1970-01-01T00:00:03.000Z'',
       JObj [(''id'', JStr id_B), (''content'', JStr ''Note B''), (''createdAt'', JNull),
             (''updatedAt'', JNull)]]))))"
proof -
  have "getMemoById browser (Browser (Some (Document (JArr
      [stored_record id_A ''new'' ''1970-01-01T00:00:01.000Z'' ''1970-01-01T00:00:03.000Z'',
       JObj [(''id'', JStr id_B), (''content'', JStr ''Note B''), (''createdAt'', JNull),
             (''updatedAt'', JNull)]])))) id_A = None"
    by (simp add: getMemoById_def undated_read1)
  from this updateMemo_not_found [OF this] undated_update
  show ?thesis by simp
qed

section \<open>Properties of the export\<close>

lemma split_first:
  "(case split sep s of [] \<Rightarrow> [] | l # ls \<Rightarrow> l) = takeWhile (\<lambda>c. c \<noteq> sep) s"
  by (induction s) (auto split: list.splits)

lemma join_contains: "x \<in> set xs \<Longrightarrow> \<exists>before after. join sep xs = before @ x @ after"
proof (induction sep xs rule: join.induct)
  case (1 sep)
  then show ?case by simp
next
  case (2 sep y)
  then have "join sep [y] = [] @ x @ []" by simp
  then show ?case by blast
next
  case (3 sep y z zs)
  show ?case
  proof (cases "x = y")
    case True
    then have "join sep (y # z # zs) = [] @ x @ (sep @ join sep (z # zs))" by simp
    then show ?thesis by blast
  next
    case False
    with 3 obtain b a where "join sep (z # zs) = b @ x @ a" by auto
    then have "join sep (y # z # zs) = (y @ sep @ b) @ x @ a" by simp
    then show ?thesis by blast
  qed
qed

lemma markdownSection_eq:
  "markdownSection h memo =
     ''# '' @ (if takeWhile (\<lambda>c. c \<noteq> CHR 0x0A) (content memo) = [] then untitled
               else takeWhile (\<lambda>c. c \<noteq> CHR 0x0A) (content memo))
     @ [CHR 0x0A, CHR 0x0A] @ content memo @ [CHR 0x0A, CHR 0x0A]
     @ ''*'' @ updated_label @ '': '' @ toLocaleDateString h (updatedAt memo) @ ''*''
     @ [CHR 0x0A, CHR 0x0A] @ ''---'' @ [CHR 0x0A]"
  by (simp add: markdownSection_def Let_def split_first)

text \<open>
  C4, as the code has it. For every memo in the cache the markdown export contains a
  section made of the heading line, an empty line, the whole content, an empty line, the
  date line with \<open>toLocaleDateString\<close> of \<open>updatedAt\<close>, an empty line and a rule. The
  heading is the first line of the content, that is the text before the first line feed,
  or the placeholder when that first line is empty.
\<close>

theorem exportMemos_markdown_section:
  "memo \<in> set memos \<longrightarrow>
   (\<exists>before after.
      exportMemos h Markdown memos =
        before
        @ ''# '' @ (if takeWhile (\<lambda>c. c \<noteq> CHR 0x0A) (content memo) = [] then untitled
                    else takeWhile (\<lambda>c. c \<noteq> CHR 0x0A) (content memo))
        @ [CHR 0x0A, CHR 0x0A] @ content memo @ [CHR 0x0A, CHR 0x0A]
        @ ''*'' @ updated_label @ '': '' @ toLocaleDateString h (updatedAt memo) @ ''*''
        @ [CHR 0x0A, CHR 0x0A] @ ''---'' @ [CHR 0x0A]
        @ after)"
proof
  assume "memo \<in> set memos"
  then have "markdownSection h memo \<in> set (map (markdownSection h) memos)"
    by simp
  from join_contains [OF this] obtain before after where
    "join [CHR 0x0A] (map (markdownSection h) memos) = before @ markdownSection h memo @ after"
    by blast
  then have "exportMemos h Markdown memos = before @ markdownSection h memo @ after"
    by (simp add: exportMemos_def)
  then show "\<exists>before after.
      exportMemos h Markdown memos =
        before
        @ ''# '' @ (if takeWhile (\<lambda>c. c \<noteq> CHR 0x0A) (content memo) = [] then untitled
                    else takeWhile (\<lambda>c. c \<noteq> CHR 0x0A) (content memo))
        @ [CHR 0x0A, CHR 0x0A] @ content memo @ [CHR 0x0A, CHR 0x0A]
        @ ''*'' @ updated_label @ '': '' @ toLocaleDateString h (updatedAt memo) @ ''*''
        @ [CHR 0x0A, CHR 0x0A] @ ''---'' @ [CHR 0x0A]
        @ after"
    unfolding markdownSection_eq by (metis append.assoc)
qed

text \<open>
  The theorem at a cache of two memos: the section of the first one is headed by its
  first line \<open>Shopping\<close>.
\<close>

theorem exportMemos_markdown_section_witness:
  "\<exists>before after.
     exportMemos browser Markdown
       [\<lparr> memo_id = id_A, content = ''Shopping'' @ [CHR 0x0A] @ ''milk'', createdAt = Some 1000,
          updatedAt = Some 2000 \<rparr>,
        \<lparr> memo_id = id_B, content = [], createdAt = Some 1000, updatedAt = Some 1000 \<rparr>] =
       before
       @ ''# Shopping'' @ [CHR 0x0A, CHR 0x0A] @ ''Shopping'' @ [CHR 0x0A] @ ''milk''
       @ [CHR 0x0A, CHR 0x0A] @ ''*'' @ updated_label @ '': 1/1/1970*''
       @ [CHR 0x0A, CHR 0x0A] @ ''---'' @ [CHR 0x0A]
       @ after"
proof -
  let ?m = "\<lparr> memo_id = id_A, content = ''Shopping'' @ [CHR 0x0A] @ ''milk'', createdAt = Some 1000,
          updatedAt = Some 2000 \<rparr>"
  let ?n = "\<lparr> memo_id = id_B, content = [], createdAt = Some 1000, updatedAt = Some 1000 \<rparr>"
  have "?m \<in> set [?m, ?n]" by simp
  with exportMemos_markdown_section [of ?m "[?m, ?n]" browser]
  obtain before after where
    "exportMemos browser Markdown [?m, ?n] =
        before
        @ ''# '' @ (if takeWhile (\<lambda>c. c \<noteq> CHR 0x0A) (content ?m) = [] then untitled
                    else takeWhile (\<lambda>c. c \<noteq> CHR 0x0A) (content ?m))
        @ [CHR 0x0A, CHR 0x0A] @ content ?m @ [CHR 0x0A, CHR 0x0A]
        @ ''*'' @ updated_label @ '': '' @ toLocaleDateString browser (updatedAt ?m) @ ''*''
        @ [CHR 0x0A, CHR 0x0A] @ ''---'' @ [CHR 0x0A]
        @ after"
    by blast
  then have "exportMemos browser Markdown [?m, ?n] =
       before
       @ ''# Shopping'' @ [CHR 0x0A, CHR 0x0A] @ ''Shopping'' @ [CHR 0x0A] @ ''milk''
       @ [CHR 0x0A, CHR 0x0A] @ ''*'' @ updated_label @ '': 1/1/1970*''
       @ [CHR 0x0A, CHR 0x0A] @ ''---'' @ [CHR 0x0A]
       @ after"
    by (simp add: browser_simps)
  then show ?thesis by blast
qed

text \<open>
  The specification takes the first non-blank line for the heading. For a content that
  starts with a line feed and goes on with \<open>Hello\<close> that line is \<open>Hello\<close>; the export
  is headed by the placeholder.
\<close>

theorem exportMemos_markdown_section_counterexample:
  "exportMemos browser Markdown
     [\<lparr> memo_id = id_A, content = [CHR 0x0A] @ ''Hello'', createdAt = Some 1000,
        updatedAt = Some 2000 \<rparr>] =
     ''# '' @ untitled @ [CHR 0x0A, CHR 0x0A] @ [CHR 0x0A] @ ''Hello'' @ [CHR 0x0A, CHR 0x0A]
     @ ''*'' @ updated_label @ '': 1/1/1970*'' @ [CHR 0x0A, CHR 0x0A] @ ''---'' @ [CHR 0x0A] \<and>
   spec_heading browser ([CHR 0x0A] @ ''Hello'') = ''Hello'' \<and>
   untitled \<noteq> ''Hello''"
  by (simp add: exportMemos_def markdownSection_eq browser_simps browser_strings
      spec_heading_def isWhiteSpace_def untitled_def)

section \<open>Properties of the save scheduler\<close>

lemma run_append: "run cfg (xs @ ys) s = run cfg ys (run cfg xs s)"
  by (induction xs arbitrary: s) auto

lemma commit_state_same:
  "saveStatus new = saveStatus old \<Longrightarrow> lastSaved new = lastSaved old \<Longrightarrow>
   commit_state cfg old new = new"
  by (simp add: commit_state_def)

lemma performSave_attempting:
  assumes "enabled cfg" "\<not> isSaving s" "inFlight s = []" "retryTimers s = []"
    and "retryCount s = 0" "debounceTimer s = None \<or> cleanup s"
  shows "attempting p 0 (Suc (length (commits s))) (performSave cfg p s)"
  using assms
  by (auto simp: performSave_def commit_state_def rerender_def effect_def run_cleanup_def
      attempting_def)

lemma failed_round:
  assumes "enabled cfg" "attempting p k n s" "k < maxRetries cfg"
  shows "attempting p (Suc k) (Suc n) (step cfg (FireRetry 0) (step cfg (Settle 0 False t) s))"
  using assms
  by (auto simp: attempting_def settle_def performSave_def commit_state_def Let_def)

lemma failed_rounds:
  assumes "enabled cfg" "attempting p 0 n s" "k \<le> maxRetries cfg"
  shows "attempting p k (n + k)
           (run cfg (concat (replicate k [Settle 0 False t, FireRetry 0])) s)"
  using assms(3)
proof (induction k)
  case 0
  with assms(2) show ?case by simp
next
  case (Suc k)
  then have a: "attempting p k (n + k)
           (run cfg (concat (replicate k [Settle 0 False t, FireRetry 0])) s)"
    by simp
  have "concat (replicate (Suc k) [Settle 0 False t, FireRetry 0]) =
        concat (replicate k [Settle 0 False t, FireRetry 0]) @ [Settle 0 False t, FireRetry 0]"
    by (metis concat.simps(2) concat_append replicate_Suc replicate_append_same append_Nil2 concat.simps(1))
  then have "run cfg (concat (replicate (Suc k) [Settle 0 False t, FireRetry 0])) s =
      step cfg (FireRetry 0) (step cfg (Settle 0 False t)
        (run cfg (concat (replicate k [Settle 0 False t, FireRetry 0])) s))"
    by (simp add: run_append)
  with failed_round [OF assms(1) a] Suc.prems show ?case
    by simp
qed

lemma last_failure:
  assumes "attempting p (maxRetries cfg) n s"
  shows "saveStatus (step cfg (Settle 0 False t) s) = error \<and>
         retryCount (step cfg (Settle 0 False t) s) = 0 \<and>
         \<not> isSaving (step cfg (Settle 0 False t) s) \<and>
         commits (step cfg (Settle 0 False t) s) = commits s \<and>
         at_rest (lastData s) (step cfg (Settle 0 False t) s)"
  using assms
  by (auto simp: attempting_def settle_def commit_state_def rerender_def effect_def
      run_cleanup_def at_rest_def)

lemma quiet_step:
  assumes "at_rest data s" "quiet data e"
  shows "at_rest data (step cfg e s) \<and> commits (step cfg e s) = commits s"
proof (cases e)
  case (Render d)
  with assms show ?thesis
    by (auto simp: quiet_def at_rest_def render_def commit_state_def rerender_def effect_def
        run_cleanup_def)
next
  case FireDebounce
  with assms show ?thesis by (simp add: at_rest_def)
next
  case (FireRetry k)
  with assms show ?thesis by (simp add: at_rest_def)
next
  case (Settle j ok now)
  with assms show ?thesis by (simp add: at_rest_def settle_def)
next
  case Save
  with assms show ?thesis by (simp add: quiet_def)
next
  case Reset
  with assms show ?thesis
    by (auto simp: at_rest_def reset_def commit_state_def rerender_def effect_def run_cleanup_def)
next
  case PageHidden
  with assms show ?thesis by (simp add: at_rest_def)
qed

lemma quiet_run:
  "at_rest data s \<Longrightarrow> list_all (quiet data) evs \<Longrightarrow>
   at_rest data (run cfg evs s) \<and> commits (run cfg evs s) = commits s"
proof (induction evs arbitrary: s)
  case Nil
  then show ?case by simp
next
  case (Cons e evs)
  from Cons.prems have q: "quiet data e" and qs: "list_all (quiet data) evs" by simp_all
  from quiet_step [OF Cons.prems(1) q, of cfg]
  have a: "at_rest data (step cfg e s)" and c: "commits (step cfg e s) = commits s"
    by simp_all
  from Cons.IH [OF a qs] c show ?case by simp
qed

text \<open>
  C5, as the code has it. Let an attempt start while nothing else is under way or
  pending and the retry counter is zero, and let it fail, and let each of the
  \<open>maxRetries\<close> retries fire and fail in turn: \<open>maxRetries + 1\<close> failures in a row. Then
  the status is \<open>error\<close>, the retry counter is zero, no timer is pending and nothing is
  under way; \<open>onSave\<close> has been called \<open>maxRetries + 1\<close> times. From there on no
  sequence of timers firing, outcomes arriving, renders with the same data, resets or
  page-hidden signals calls \<open>onSave\<close> again: that takes a render with new data or a call
  of \<open>save\<close>.
\<close>

theorem retries_exhausted:
  "enabled cfg \<and> \<not> isSaving s \<and> inFlight s = [] \<and> retryTimers s = [] \<and>
   retryCount s = 0 \<and>
   (debounceTimer s = None \<or> cleanup s) \<and>
   s' = run cfg (concat (replicate (maxRetries cfg) [Settle 0 False t, FireRetry 0])
                  @ [Settle 0 False t]) (performSave cfg p s) \<longrightarrow>
   saveStatus s' = error \<and> retryCount s' = 0 \<and> \<not> isSaving s' \<and>
   debounceTimer s' = None \<and> retryTimers s' = [] \<and> inFlight s' = [] \<and>
   length (commits s') = length (commits s) + maxRetries cfg + 1 \<and>
   (\<forall>evs. list_all (quiet (lastData s')) evs \<longrightarrow> commits (run cfg evs s') = commits s')"
proof
  assume a: "enabled cfg \<and> \<not> isSaving s \<and> inFlight s = [] \<and> retryTimers s = [] \<and>
   retryCount s = 0 \<and>
   (debounceTimer s = None \<or> cleanup s) \<and>
   s' = run cfg (concat (replicate (maxRetries cfg) [Settle 0 False t, FireRetry 0])
                  @ [Settle 0 False t]) (performSave cfg p s)"
  let ?s0 = "performSave cfg p s"
  let ?sk = "run cfg (concat (replicate (maxRetries cfg) [Settle 0 False t, FireRetry 0])) ?s0"
  from a have en: "enabled cfg" by simp
  from a have s0: "attempting p 0 (Suc (length (commits s))) ?s0"
    by (intro performSave_attempting) simp_all
  from failed_rounds [OF en s0, of "maxRetries cfg" t]
  have sk: "attempting p (maxRetries cfg) (Suc (length (commits s)) + maxRetries cfg) ?sk"
    by simp
  from a have s': "s' = step cfg (Settle 0 False t) ?sk"
    by (simp add: run_append)
  from last_failure [OF sk, of t] s'
  have f: "saveStatus s' = error" "retryCount s' = 0" "\<not> isSaving s'" "commits s' = commits ?sk"
    "at_rest (lastData ?sk) s'"
    by simp_all
  from f(5) have ld: "lastData s' = lastData ?sk"
    by (simp add: at_rest_def)
  from sk f(4) have len: "length (commits s') = length (commits s) + maxRetries cfg + 1"
    by (simp add: attempting_def)
  from f(5) ld have r: "at_rest (lastData s') s'" by simp
  then have "\<forall>evs. list_all (quiet (lastData s')) evs \<longrightarrow> commits (run cfg evs s') = commits s'"
    using quiet_run by blast
  with f len r show "saveStatus s' = error \<and> retryCount s' = 0 \<and> \<not> isSaving s' \<and>
   debounceTimer s' = None \<and> retryTimers s' = [] \<and> inFlight s' = [] \<and>
   length (commits s') = length (commits s) + maxRetries cfg + 1 \<and>
   (\<forall>evs. list_all (quiet (lastData s')) evs \<longrightarrow> commits (run cfg evs s') = commits s')"
    by (simp add: at_rest_def)
qed

text \<open>
  The theorem for the page's three retries, started on a hook mounted with \<open>ab\<close>: four
  failures end in \<open>error\<close> with four calls of \<open>onSave\<close>, and five quiet events add none.
\<close>

theorem retries_exhausted_witness:
  "saveStatus (run page (concat (replicate 3 [Settle 0 False 0, FireRetry 0]) @ [Settle 0 False 0])
      (performSave page ''ab'' (mount ''ab''))) = error \<and>
   retryCount (run page (concat (replicate 3 [Settle 0 False 0, FireRetry 0]) @ [Settle 0 False 0])
      (performSave page ''ab'' (mount ''ab''))) = 0 \<and>
   length (commits (run page (concat (replicate 3 [Settle 0 False 0, FireRetry 0]) @ [Settle 0 False 0])
      (performSave page ''ab'' (mount ''ab'')))) = 4 \<and>
   commits (run page [FireDebounce, FireRetry 0, PageHidden, Render ''ab'', Settle 0 True 5]
     (run page (concat (replicate 3 [Settle 0 False 0, FireRetry 0]) @ [Settle 0 False 0])
        (performSave page ''ab'' (mount ''ab'')))) =
   commits (run page (concat (replicate 3 [Settle 0 False 0, FireRetry 0]) @ [Settle 0 False 0])
      (performSave page ''ab'' (mount ''ab'')))"
proof -
  let ?s = "mount ''ab''"
  let ?s' = "run page (concat (replicate 3 [Settle 0 False 0, FireRetry 0]) @ [Settle 0 False 0])
      (performSave page ''ab'' ?s)"
  have h: "enabled page \<and> \<not> isSaving ?s \<and> inFlight ?s = [] \<and> retryTimers ?s = [] \<and>
     retryCount ?s = 0 \<and>
     (debounceTimer ?s = None \<or> cleanup ?s) \<and>
     ?s' = run page (concat (replicate (maxRetries page) [Settle 0 False 0, FireRetry 0])
                  @ [Settle 0 False 0]) (performSave page ''ab'' ?s)"
    by (simp add: page_def mount_def)
  from retries_exhausted [of page ?s ?s' 0 "''ab''"] h
  have r: "saveStatus ?s' = error" "retryCount ?s' = 0"
    "length (commits ?s') = length (commits ?s) + maxRetries page + 1"
    "\<forall>evs. list_all (quiet (lastData ?s')) evs \<longrightarrow> commits (run page evs ?s') = commits ?s'"
    by blast+
  have ld: "lastData ?s' = ''ab''"
    by (simp add: page_def mount_def effect_def run_cleanup_def commit_state_def
      rerender_def performSave_def settle_def Let_def numeral_3_eq_3)
  have "list_all (quiet (lastData ?s')) [FireDebounce, FireRetry 0, PageHidden, Render ''ab'', Settle 0 True 5]"
    unfolding ld by (simp add: quiet_def)
  with r(4) have "commits (run page [FireDebounce, FireRetry 0, PageHidden, Render ''ab'', Settle 0 True 5] ?s') = commits ?s'"
    by blast
  with r(1,2,3) show ?thesis
    by (simp add: page_def mount_def)
qed

text \<open>
  The specification counts \<open>maxRetries\<close> failures. After three failures in a row, with
  \<open>maxRetries = 3\<close>, the status is \<open>saving\<close>, the counter is 3 and the third retry is
  pending, 4000 ms away; if that retry succeeds the status ends as \<open>saved\<close>.
\<close>

theorem retries_exhausted_counterexample:
  "maxRetries page = 3 \<and>
   saveStatus (run page [Render ''a'', Render ''ab'', FireDebounce, Settle 0 False 0, FireRetry 0,
                 Settle 0 False 0, FireRetry 0, Settle 0 False 0] (mount [])) = saving \<and>
   retryCount (run page [Render ''a'', Render ''ab'', FireDebounce, Settle 0 False 0, FireRetry 0,
                 Settle 0 False 0, FireRetry 0, Settle 0 False 0] (mount [])) = 3 \<and>
   retryTimers (run page [Render ''a'', Render ''ab'', FireDebounce, Settle 0 False 0, FireRetry 0,
                 Settle 0 False 0, FireRetry 0, Settle 0 False 0] (mount [])) = [(4000, ''ab'')] \<and>
   saveStatus (run page [Render ''a'', Render ''ab'', FireDebounce, Settle 0 False 0, FireRetry 0,
                 Settle 0 False 0, FireRetry 0, Settle 0 False 0, FireRetry 0, Settle 0 True 9]
                 (mount [])) = saved"
  by (simp add: page_def mount_def render_def effect_def run_cleanup_def commit_state_def
      rerender_def performSave_def settle_def Let_def)

subsection \<open>Which value an attempt commits\<close>

text \<open>
  A pending debounce timer was set by the effect of the last render, so the attempt it
  starts commits the latest data.
\<close>

lemma debounce_fresh_step: "debounce_fresh s \<Longrightarrow> debounce_fresh (step cfg e s)"
proof (cases e)
  case (Render d)
  assume "debounce_fresh s"
  with Render show ?thesis
    by (auto simp: debounce_fresh_def render_def commit_state_def rerender_def effect_def
        run_cleanup_def split: option.splits)
next
  case FireDebounce
  assume "debounce_fresh s"
  with FireDebounce show ?thesis
    by (auto simp: debounce_fresh_def performSave_def commit_state_def rerender_def effect_def
        run_cleanup_def split: option.splits)
next
  case (FireRetry k)
  assume "debounce_fresh s"
  with FireRetry show ?thesis
    by (auto simp: debounce_fresh_def performSave_def commit_state_def rerender_def effect_def
        run_cleanup_def split: option.splits)
next
  case (Settle j ok now)
  assume "debounce_fresh s"
  with Settle show ?thesis
    by (auto simp: debounce_fresh_def settle_def commit_state_def rerender_def effect_def
        run_cleanup_def Let_def split: option.splits)
next
  case Save
  assume "debounce_fresh s"
  with Save show ?thesis
    by (auto simp: debounce_fresh_def save_def performSave_def commit_state_def rerender_def
        effect_def run_cleanup_def split: option.splits)
next
  case Reset
  assume "debounce_fresh s"
  with Reset show ?thesis
    by (auto simp: debounce_fresh_def reset_def commit_state_def rerender_def effect_def
        run_cleanup_def split: option.splits)
next
  case PageHidden
  assume "debounce_fresh s"
  with PageHidden show ?thesis
    by (auto simp: debounce_fresh_def performSave_def commit_state_def rerender_def effect_def
        run_cleanup_def split: option.splits)
qed

lemma debounce_fresh_run: "debounce_fresh s \<Longrightarrow> debounce_fresh (run cfg evs s)"
  by (induction evs arbitrary: s) (auto simp: debounce_fresh_step)

lemma debounce_commits_latest:
  assumes "debounce_fresh s"
  shows "commits (step cfg FireDebounce s) = commits s \<or>
         commits (step cfg FireDebounce s) = commits s @ [(lastData s, lastData s)]"
  using assms
  by (auto simp: debounce_fresh_def performSave_def commit_state_def rerender_def effect_def
      run_cleanup_def split: option.splits)

text \<open>
  C2 fails for a retry. The hook is rendered with \<open>a\<close> and then \<open>ab\<close>; the debounce
  timer fires and the attempt to commit \<open>ab\<close> fails, which sets a retry timer. During
  the wait the hook is rendered with \<open>abc\<close>. The retry timer fires and calls the
  \<open>performSave\<close> that set it, whose \<open>onSave\<close> commits \<open>ab\<close>: the second attempt commits
  \<open>ab\<close> while the latest data is \<open>abc\<close>.
\<close>

theorem retry_commits_stale:
  "commits (run page [Render ''a'', Render ''ab'', FireDebounce, Settle 0 False 0,
                      Render ''abc'', FireRetry 0] (mount [])) =
     [(''ab'', ''ab''), (''ab'', ''abc'')] \<and>
   lastData (run page [Render ''a'', Render ''ab'', FireDebounce, Settle 0 False 0,
                      Render ''abc'', FireRetry 0] (mount [])) = ''abc'' \<and>
   inFlight (run page [Render ''a'', Render ''ab'', FireDebounce, Settle 0 False 0,
                      Render ''abc'', FireRetry 0] (mount [])) = [''ab'']"
  by code_simp

end
